theory Spec2Isabelle
  imports Main "HOL-Library.AList" "HOL-Library.Code_Target_Numeral"
begin

section \<open>Values, errors and effects\<close>

text \<open>
  The plugin is TypeScript run on a JavaScript engine. The values that flow through
  \<^verbatim>\<open>parseLog\<close> and \<^verbatim>\<open>runEveryMinute\<close> are: ethers \<^verbatim>\<open>BigNumber\<close> objects (the
  integers the ABI decoder does not hand out as native numbers), strings (addresses,
  byte strings in hex, text),
  booleans, native numbers (block numbers, timestamps, the result of \<^verbatim>\<open>toNumber\<close>)
  and arrays of values (array and tuple parameters).
  Native numbers are modelled as integers: every number the code handles is a block
  number, a timestamp or a \<^verbatim>\<open>toNumber\<close> result, all integral and below \<open>2^53\<close>.
  Strings are lists of 8-bit characters, that is, code units below 256.
\<close>

datatype jsval =
    BigNumber int
  | JStr string
  | JBool bool
  | JNum int
  | JArr "jsval list"

text \<open>
  An exception is a value. \<open>TypeError\<close> is the engine's own (a property read on
  \<^verbatim>\<open>null\<close>), \<open>EthersError\<close> is thrown by the ethers library, \<open>ExternalError\<close>
  is a rejected call of a collaborator (provider, sink).
\<close>

datatype error = TypeError string | EthersError string | ExternalError string

text \<open>
  A plain JavaScript object with string keys is an association list in insertion
  order; \<^const>\<open>AList.update\<close> is the assignment \<^verbatim>\<open>o[k] = v\<close> (in place when the
  key exists, appended otherwise) and \<^const>\<open>map_of\<close> is the property read.
  Objects that are only looked up (the instructions read from JSON, the cache of block
  timestamps) are maps. Own properties only: keys are assumed not to be names that
  \<^verbatim>\<open>Object.prototype\<close> provides (\<^verbatim>\<open>constructor\<close>, \<^verbatim>\<open>toString\<close>, \<^verbatim>\<open>__proto__\<close>, ...),
  which the \<^verbatim>\<open>in\<close> operator would find on every object.
\<close>

type_synonym obj = "(string \<times> jsval) list"

record filter_spec =
  address :: string
  fromBlock :: "int option"
  toBlock :: int

text \<open>
  Everything the cycle does to the outside world, in the order it happens.
  \<open>ConsoleWarn last latest\<close> stands for the lookback warning with the two numbers
  it prints; \<open>ConsoleError e\<close> for \<^verbatim>\<open>console.error("Couldn't parse log: ", e)\<close>.
\<close>

datatype effect =
    GetBlockNumber
  | StorageGet string
  | ConsoleWarn int int
  | GetLogs filter_spec
  | GetBlock string
  | Capture string obj
  | ConsoleError error
  | StorageSet string int

section \<open>The ethers library\<close>

subsection \<open>Digits\<close>

text \<open>
  Numbers in decimal and in lower-case hexadecimal, most significant digit first, with
  no leading zero (\<open>0\<close> for zero), and the value of a string of digits.
\<close>

definition digitChar :: "nat \<Rightarrow> char" where
  "digitChar d = ''0123456789abcdef'' ! d"

fun decStr :: "nat \<Rightarrow> string" where
  "decStr n = (if n < 10 then [digitChar n] else decStr (n div 10) @ [digitChar (n mod 10)])"

fun hexStr :: "nat \<Rightarrow> string" where
  "hexStr n = (if n < 16 then [digitChar n] else hexStr (n div 16) @ [digitChar (n mod 16)])"

declare decStr.simps [simp del] hexStr.simps [simp del]

definition isDecDigit :: "char \<Rightarrow> bool" where
  "isDecDigit c = (48 \<le> (of_char c :: nat) \<and> (of_char c :: nat) \<le> 57)"

definition isHexDigit :: "char \<Rightarrow> bool" where
  "isHexDigit c =
     (isDecDigit c \<or> (97 \<le> (of_char c :: nat) \<and> (of_char c :: nat) \<le> 102)
      \<or> (65 \<le> (of_char c :: nat) \<and> (of_char c :: nat) \<le> 70))"

definition digitVal :: "char \<Rightarrow> nat" where
  "digitVal c =
     (if isDecDigit c then of_char c - 48
      else if 97 \<le> (of_char c :: nat) then of_char c - 87
      else of_char c - 55)"

definition digitsVal :: "nat \<Rightarrow> string \<Rightarrow> nat" where
  "digitsVal radix ds = foldl (\<lambda>acc c. acc * radix + digitVal c) 0 ds"

subsection \<open>BigNumber\<close>

text \<open>
  Modelled from the spec: \<^verbatim>\<open>BigNumber.toHexString\<close>, \<^verbatim>\<open>BigNumber.from\<close>,
  \<^verbatim>\<open>BigNumber.toNumber\<close> and \<^verbatim>\<open>ethers.utils.formatEther\<close> belong to the ethers
  library, which is not among the sources. The spec asks for a hexadecimal string that
  preserves the integer exactly (4.2) and, for \<^verbatim>\<open>eth\<close>, for the amount divided by
  \<open>10^18\<close> as a decimal string (4.3); the definitions below follow the library's
  version 5, which the plugin imports, in the details the spec leaves open.

  \<^verbatim>\<open>toHexString\<close>: \<open>0x\<close>, then the hexadecimal digits in lower case, padded to an
  even number of digits, leading zero bytes removed; a minus sign in front of a
  negative number; zero is \<open>0x00\<close>.
\<close>

fun trimZeroBytes :: "string \<Rightarrow> string" where
  "trimZeroBytes (a # b # c # rest) =
     (if a = CHR ''0'' \<and> b = CHR ''0'' then trimZeroBytes (c # rest) else a # b # c # rest)"
| "trimZeroBytes s = s"

definition toHex :: "nat \<Rightarrow> string" where
  "toHex m =
     (let h = hexStr m;
          h = (if odd (length h) then CHR ''0'' # h else h)
      in ''0x'' @ trimZeroBytes h)"

definition toHexString :: "int \<Rightarrow> string" where
  "toHexString n =
     (if n < 0 then
        (let v = toHex (nat (- n)) in if v = ''0x00'' then v else CHR ''-'' # v)
      else toHex (nat n))"

text \<open>
  \<^verbatim>\<open>BigNumber.from\<close>: a BigNumber is returned as it is; a string must be an optional
  minus sign followed by \<open>0x\<close> and at least one hexadecimal digit, or by at least one
  decimal digit; a native number must be a safe integer; an array counts as bytes
  (big-endian) when every element is a native number from 0 to 255 and there is at
  least one; everything else is refused. An upper-case \<open>0X\<close> prefix is refused here:
  the library lets it past its pattern and fails on it later.
\<close>

definition MAX_SAFE :: int where
  "MAX_SAFE = 9007199254740991"

fun stripSign :: "string \<Rightarrow> bool \<times> string" where
  "stripSign (c # cs) = (if c = CHR ''-'' then (True, cs) else (False, c # cs))"
| "stripSign [] = (False, [])"

definition signed :: "bool \<Rightarrow> nat \<Rightarrow> int" where
  "signed neg m = (if neg then - int m else int m)"

definition fromString :: "string \<Rightarrow> error + int" where
  "fromString s =
     (let (neg, body) = stripSign s in
      if take 2 body = ''0x'' \<and> drop 2 body \<noteq> [] \<and> list_all isHexDigit (drop 2 body)
        then Inr (signed neg (digitsVal 16 (drop 2 body)))
      else if body \<noteq> [] \<and> list_all isDecDigit body
        then Inr (signed neg (digitsVal 10 body))
      else Inl (EthersError ''invalid BigNumber string''))"

fun byteOf :: "jsval \<Rightarrow> nat option" where
  "byteOf (JNum b) = (if 0 \<le> b \<and> b < 256 then Some (nat b) else None)"
| "byteOf _ = None"

definition BigNumber_from :: "jsval \<Rightarrow> error + int" where
  "BigNumber_from v =
     (case v of
        BigNumber n \<Rightarrow> Inr n
      | JStr s \<Rightarrow> fromString s
      | JNum n \<Rightarrow>
          (if n \<ge> MAX_SAFE \<or> n \<le> - MAX_SAFE then Inl (EthersError ''overflow'') else Inr n)
      | JBool b \<Rightarrow> Inl (EthersError ''invalid BigNumber value'')
      | JArr xs \<Rightarrow>
          (if list_all (\<lambda>x. byteOf x \<noteq> None) xs then
             (if xs = [] then Inl (EthersError ''invalid BigNumber string'')
              else Inr (int (foldl (\<lambda>acc x. acc * 256 + the (byteOf x)) 0 xs)))
           else Inl (EthersError ''invalid BigNumber value'')))"

text \<open>\<^verbatim>\<open>toNumber\<close> throws when the value needs more than 53 bits.\<close>

definition toNumber :: "int \<Rightarrow> error + int" where
  "toNumber n = (if \<bar>n\<bar> < 2 ^ 53 then Inr n else Inl (EthersError ''overflow''))"

text \<open>
  \<^verbatim>\<open>formatEther\<close>: the whole part \<open>|n| div 10^18\<close> in decimal, a point, and the
  remainder \<open>|n| mod 10^18\<close> as eighteen decimal digits with the trailing zeros
  removed (one \<open>0\<close> is kept when the remainder is zero); a minus sign in front of a
  negative amount.
\<close>

definition stripTrailingZeros :: "string \<Rightarrow> string" where
  "stripTrailingZeros f =
     (let t = rev (dropWhile (\<lambda>c. c = CHR ''0'') (rev f)) in if t = [] then ''0'' else t)"

definition padFraction :: "string \<Rightarrow> string" where
  "padFraction f = replicate (18 - length f) (CHR ''0'') @ f"

definition formatEther :: "int \<Rightarrow> string" where
  "formatEther n =
     (let v = nat \<bar>n\<bar>;
          fraction = stripTrailingZeros (padFraction (decStr (v mod 10 ^ 18)));
          whole = decStr (v div 10 ^ 18);
          s = whole @ ''.'' @ fraction
      in if n < 0 then CHR ''-'' # s else s)"

section \<open>The engine's \<^verbatim>\<open>parseInt\<close>\<close>

text \<open>
  \<^verbatim>\<open>parseInt(key)\<close> with no radix: leading white space is skipped, one sign is
  read, a \<open>0x\<close> or \<open>0X\<close> prefix selects radix 16, and the longest run of digits of
  the radix is the number; with no digit the result is \<^verbatim>\<open>NaN\<close>, here \<open>None\<close>.
\<close>

definition isWhiteSpace :: "char \<Rightarrow> bool" where
  "isWhiteSpace c = ((of_char c :: nat) \<in> set [9, 10, 11, 12, 13, 32, 160])"

fun readSign :: "string \<Rightarrow> bool \<times> string" where
  "readSign (c # cs) =
     (if c = CHR ''-'' then (True, cs) else if c = CHR ''+'' then (False, cs) else (False, c # cs))"
| "readSign [] = (False, [])"

definition parseInt :: "string \<Rightarrow> int option" where
  "parseInt s =
     (let (neg, s1) = readSign (dropWhile isWhiteSpace s);
          hex = (take 2 s1 = ''0x'' \<or> take 2 s1 = ''0X'');
          s2 = (if hex then drop 2 s1 else s1);
          z = takeWhile (if hex then isHexDigit else isDecDigit) s2
      in if z = [] then None else Some (signed neg (digitsVal (if hex then 16 else 10) z)))"

definition isNaN :: "int option \<Rightarrow> bool" where
  "isNaN x = (x = None)"

section \<open>The plugin\<close>

subsection \<open>Data\<close>

definition STORAGE_KEY_LAST_INGESTED_BLOCK_NUMBER :: string where
  "STORAGE_KEY_LAST_INGESTED_BLOCK_NUMBER = ''ethereum-events-plugin-lastIngestedBlockNumber''"

text \<open>
  An instruction read from the JSON attachment; both fields may be missing.
  \<open>argType\<close> is any string the file holds, not only the three the code knows.
\<close>

record ArgInstruction =
  isDistinctId :: "bool option"
  argType :: "string option"

type_synonym EventParsingInstruction = "string \<rightharpoonup> (string \<rightharpoonup> ArgInstruction)"

record EventFragment =
  name :: string
  anonymous :: bool
  format :: string

text \<open>
  The ethers \<^verbatim>\<open>Interface\<close> of the contract, by the two methods \<^verbatim>\<open>parseLog\<close> calls.
  \<open>getEvent\<close> receives \<^verbatim>\<open>log.topics[0]\<close> (\<open>None\<close> when the log has no topic) and
  returns a fragment, nothing, or throws; \<open>decodeEventLog\<close> returns the decoded
  arguments as the library's array with named keys: the positions \<open>0\<close>, \<open>1\<close>, ...
  first, then the names.
\<close>

record Interface =
  getEvent :: "string option \<Rightarrow> error + EventFragment option"
  decodeEventLog :: "EventFragment \<Rightarrow> string \<Rightarrow> string list \<Rightarrow> error + obj"

record Log =
  address :: string
  topics :: "string list"
  data :: string
  blockNumber :: int
  blockHash :: string

record Block =
  timestamp :: int

text \<open>
  The provider's three calls. \<open>getBlock\<close> returns \<open>None\<close> for \<^verbatim>\<open>null\<close> (a hash the
  node does not know). Within one cycle \<^verbatim>\<open>getBlockNumber\<close> and \<^verbatim>\<open>getLogs\<close> are called
  once, and \<^verbatim>\<open>getBlock\<close> once per hash at most, so a function of the argument
  describes every answer the cycle can see.
\<close>

record InfuraProvider =
  getBlockNumber :: "error + int"
  getLogs :: "filter_spec \<Rightarrow> error + Log list"
  getBlock :: "string \<Rightarrow> error + Block option"

record Global =
  provider :: InfuraProvider
  blockNumberToIngestFrom :: "int option"
  contractInterface :: Interface
  eventParsingInstructions :: "EventParsingInstruction option"

record Config =
  contractAddress :: string

record Meta =
  global :: Global
  config :: Config
  storage :: "string \<rightharpoonup> int"

text \<open>
  What the plugin finds around it: the sink \<^verbatim>\<open>posthog.capture\<close> and the library's
  \<^verbatim>\<open>parseBytes32String\<close>. The sink may be called twice with the same event, so its
  answer (\<open>None\<close> when it returns, the exception when it throws) also depends on the
  position of the log in the window.
\<close>

record Ambient =
  posthog_capture :: "nat \<Rightarrow> string \<Rightarrow> obj \<Rightarrow> error option"
  parseBytes32String :: "jsval \<Rightarrow> error + string"

record ParsedLog =
  eventFragment :: EventFragment
  name :: string
  signature :: string
  namedArgs :: obj

subsection \<open>\<^verbatim>\<open>parseLog\<close>\<close>

text \<open>
  The loop over \<^verbatim>\<open>Object.keys(args)\<close>: a key is kept when \<^verbatim>\<open>parseInt\<close> of it is
  \<^verbatim>\<open>NaN\<close>, and a BigNumber is stored as its \<^verbatim>\<open>toHexString()\<close>.
\<close>

definition keepNamed :: "string \<times> jsval \<Rightarrow> obj \<Rightarrow> obj" where
  "keepNamed kv named =
     (case kv of (key, v) \<Rightarrow>
        if isNaN (parseInt key) then
          (case v of
             BigNumber n \<Rightarrow> AList.update key (JStr (toHexString n)) named
           | _ \<Rightarrow> AList.update key v named)
        else named)"

definition parseLog :: "Interface \<Rightarrow> Log \<Rightarrow> error + ParsedLog option" where
  "parseLog ci log =
     (case getEvent ci (case topics log of [] \<Rightarrow> None | t # _ \<Rightarrow> Some t) of
        Inl e \<Rightarrow> Inl e
      | Inr None \<Rightarrow> Inr None
      | Inr (Some fragment) \<Rightarrow>
          if anonymous fragment then Inr None
          else
            (case decodeEventLog ci fragment (data log) (topics log) of
               Inl e \<Rightarrow> Inl e
             | Inr args \<Rightarrow>
                 Inr (Some \<lparr>eventFragment = fragment,
                            name = EventFragment.name fragment,
                            signature = format fragment,
                            namedArgs = fold keepNamed args []\<rparr>)))"

subsection \<open>The checkpoint\<close>

definition getLastIngestedBlockNumber :: "(string \<rightharpoonup> int) \<Rightarrow> int option" where
  "getLastIngestedBlockNumber st = st STORAGE_KEY_LAST_INGESTED_BLOCK_NUMBER"

definition setLastIngestedBlockNumber :: "(string \<rightharpoonup> int) \<Rightarrow> int \<Rightarrow> (string \<rightharpoonup> int)" where
  "setLastIngestedBlockNumber st n =
     st(STORAGE_KEY_LAST_INGESTED_BLOCK_NUMBER \<mapsto> n)"

subsection \<open>The body of the loop\<close>

text \<open>
  The chain of tests on \<^verbatim>\<open>argInstruction.argType\<close>: a missing or empty type and any
  type other than \<open>eth\<close>, \<open>string\<close> and \<open>number\<close> leave the value as it is.
\<close>

definition coerce :: "Ambient \<Rightarrow> ArgInstruction \<Rightarrow> jsval \<Rightarrow> error + jsval" where
  "coerce amb argInstruction argValue =
     (case argType argInstruction of
        None \<Rightarrow> Inr argValue
      | Some t \<Rightarrow>
          if t = [] then Inr argValue
          else if t = ''eth'' then
            (case BigNumber_from argValue of
               Inl e \<Rightarrow> Inl e
             | Inr n \<Rightarrow> Inr (JStr (formatEther n)))
          else if t = ''string'' then
            (case parseBytes32String amb argValue of
               Inl e \<Rightarrow> Inl e
             | Inr s \<Rightarrow> Inr (JStr s))
          else if t = ''number'' then
            (case BigNumber_from argValue of
               Inl e \<Rightarrow> Inl e
             | Inr n \<Rightarrow> (case toNumber n of Inl e \<Rightarrow> Inl e | Inr m \<Rightarrow> Inr (JNum m)))
          else Inr argValue)"

text \<open>One turn of the \<^verbatim>\<open>forEach\<close> over the named arguments.\<close>

definition applyInstruction ::
  "Ambient \<Rightarrow> (string \<rightharpoonup> ArgInstruction) \<Rightarrow> string \<times> jsval \<Rightarrow> obj \<Rightarrow> error + obj" where
  "applyInstruction amb eventParsingInstruction arg eventData =
     (case arg of (argName, v) \<Rightarrow>
        (case eventParsingInstruction argName of
           None \<Rightarrow> Inr eventData
         | Some argInstruction \<Rightarrow>
             (case coerce amb argInstruction v of
                Inl e \<Rightarrow> Inl e
              | Inr argValue \<Rightarrow>
                  Inr (AList.update argName argValue
                        (if isDistinctId argInstruction = Some True
                         then AList.update ''distinct_id'' argValue eventData
                         else eventData)))))"

fun forEachArg ::
  "Ambient \<Rightarrow> (string \<rightharpoonup> ArgInstruction) \<Rightarrow> obj \<Rightarrow> obj \<Rightarrow> error + obj" where
  "forEachArg amb epi [] eventData = Inr eventData"
| "forEachArg amb epi (arg # args) eventData =
     (case applyInstruction amb epi arg eventData of
        Inl e \<Rightarrow> Inl e
      | Inr eventData' \<Rightarrow> forEachArg amb epi args eventData')"

text \<open>
  The object literal with the three base fields and the spread of the arguments, and
  the lookup of the instructions. The two \<^verbatim>\<open>in\<close> tests are lookups of own keys: an
  event or an argument named like a member of \<^verbatim>\<open>Object.prototype\<close> (\<^verbatim>\<open>valueOf\<close>,
  \<^verbatim>\<open>constructor\<close>, ...), for which \<^verbatim>\<open>in\<close> is true on every object, is outside the
  model.
\<close>

definition seedEventData :: "int \<Rightarrow> Log \<Rightarrow> obj \<Rightarrow> obj" where
  "seedEventData blockTimestamp log args =
     fold (\<lambda>kv ed. AList.update (fst kv) (snd kv) ed) args
       [(''$timestamp'', JNum blockTimestamp),
        (''blockNumber'', JNum (blockNumber log)),
        (''blockHash'', JStr (blockHash log))]"

definition buildEventData :: "Ambient \<Rightarrow> Global \<Rightarrow> int \<Rightarrow> Log \<Rightarrow> ParsedLog \<Rightarrow> error + obj" where
  "buildEventData amb g blockTimestamp log parsedLog =
     (let eventData = seedEventData blockTimestamp log (namedArgs parsedLog) in
      case eventParsingInstructions g of
        None \<Rightarrow> Inr eventData
      | Some instructions \<Rightarrow>
          (case instructions (ParsedLog.name parsedLog) of
             None \<Rightarrow> Inr eventData
           | Some eventParsingInstruction \<Rightarrow>
               forEachArg amb eventParsingInstruction (namedArgs parsedLog) eventData))"

text \<open>
  The \<^verbatim>\<open>try\<close> block for the log at position \<open>i\<close>, as the effects it has. A
  \<^verbatim>\<open>null\<close> from \<^verbatim>\<open>parseLog\<close> is not tested: reading \<^verbatim>\<open>parsedLog.namedArgs\<close>
  throws, and the \<^verbatim>\<open>catch\<close> reports it like every other exception.
\<close>

definition tryBlock :: "Ambient \<Rightarrow> Global \<Rightarrow> nat \<Rightarrow> int \<Rightarrow> Log \<Rightarrow> effect list" where
  "tryBlock amb g i blockTimestamp log =
     (case parseLog (contractInterface g) log of
        Inl e \<Rightarrow> [ConsoleError e]
      | Inr None \<Rightarrow> [ConsoleError (TypeError ''parsedLog is null'')]
      | Inr (Some parsedLog) \<Rightarrow>
          (case buildEventData amb g blockTimestamp log parsedLog of
             Inl e \<Rightarrow> [ConsoleError e]
           | Inr eventData \<Rightarrow>
               (case posthog_capture amb i (ParsedLog.name parsedLog) eventData of
                  None \<Rightarrow> [Capture (ParsedLog.name parsedLog) eventData]
                | Some e \<Rightarrow> [Capture (ParsedLog.name parsedLog) eventData, ConsoleError e])))"

text \<open>
  The \<^verbatim>\<open>for\<close> loop from position \<open>i\<close> on, with the cache \<open>blockTimestamps\<close>. The
  result is the effects and the exception that left the loop, if one did: the
  timestamp is fetched outside the \<^verbatim>\<open>try\<close>.
\<close>

fun forLogs ::
  "Ambient \<Rightarrow> Global \<Rightarrow> nat \<Rightarrow> (string \<rightharpoonup> int) \<Rightarrow> Log list \<Rightarrow> effect list \<times> error option" where
  "forLogs amb g i blockTimestamps [] = ([], None)"
| "forLogs amb g i blockTimestamps (log # logs) =
     (case blockTimestamps (blockHash log) of
        Some blockTimestamp \<Rightarrow>
          (case forLogs amb g (Suc i) blockTimestamps logs of
             (tr, r) \<Rightarrow> (tryBlock amb g i blockTimestamp log @ tr, r))
      | None \<Rightarrow>
          (case getBlock (provider g) (blockHash log) of
             Inl e \<Rightarrow> ([GetBlock (blockHash log)], Some e)
           | Inr None \<Rightarrow> ([GetBlock (blockHash log)], Some (TypeError ''block is null''))
           | Inr (Some block) \<Rightarrow>
               (case forLogs amb g (Suc i)
                       (blockTimestamps(blockHash log \<mapsto> timestamp block)) logs of
                  (tr, r) \<Rightarrow>
                    (GetBlock (blockHash log) # tryBlock amb g i (timestamp block) log @ tr, r))))"

subsection \<open>\<^verbatim>\<open>runEveryMinute\<close>\<close>

text \<open>
  One cycle: the new \<^verbatim>\<open>meta\<close> (\<^verbatim>\<open>global\<close> and the storage), the effects in order,
  and the exception the cycle ended with, if any. The cache starts empty in every
  call and is not part of the result.
\<close>

definition runEveryMinute :: "Ambient \<Rightarrow> Meta \<Rightarrow> Meta \<times> effect list \<times> error option" where
  "runEveryMinute amb meta =
     (case getBlockNumber (provider (global meta)) of
        Inl e \<Rightarrow> (meta, [GetBlockNumber], Some e)
      | Inr latestBlockNumber \<Rightarrow>
          (let lastIngestedBlockNumber =
                 (case getLastIngestedBlockNumber (storage meta) of
                    None \<Rightarrow> latestBlockNumber
                  | Some b \<Rightarrow> b);
               behind = (latestBlockNumber - lastIngestedBlockNumber > 1000);
               g = (if behind
                    then (global meta)\<lparr>blockNumberToIngestFrom := Some (latestBlockNumber - 1000)\<rparr>
                    else global meta);
               before =
                 [GetBlockNumber, StorageGet STORAGE_KEY_LAST_INGESTED_BLOCK_NUMBER]
                 @ (if behind then [ConsoleWarn lastIngestedBlockNumber latestBlockNumber] else []);
               query = \<lparr>filter_spec.address = contractAddress (config meta),
                        fromBlock = blockNumberToIngestFrom g,
                        toBlock = latestBlockNumber\<rparr>
           in case getLogs (provider g) query of
                Inl e \<Rightarrow> (meta\<lparr>global := g\<rparr>, before @ [GetLogs query], Some e)
              | Inr logs \<Rightarrow>
                  (case forLogs amb g 0 Map.empty logs of
                     (tr, Some e) \<Rightarrow> (meta\<lparr>global := g\<rparr>, before @ GetLogs query # tr, Some e)
                   | (tr, None) \<Rightarrow>
                       (meta\<lparr>global := g,
                             storage := setLastIngestedBlockNumber (storage meta) latestBlockNumber\<rparr>,
                        before @ GetLogs query # tr
                        @ [StorageSet STORAGE_KEY_LAST_INGESTED_BLOCK_NUMBER latestBlockNumber],
                        None))))"

section \<open>Notions for the statements\<close>

text \<open>
  The timestamp the provider has for a block hash, if it delivers the block, and the
  exception the loop ends with if it does not.
\<close>

definition blockTime :: "Global \<Rightarrow> string \<Rightarrow> int option" where
  "blockTime g h =
     (case getBlock (provider g) h of Inr (Some b) \<Rightarrow> Some (timestamp b) | _ \<Rightarrow> None)"

definition fetchError :: "Global \<Rightarrow> string \<Rightarrow> error" where
  "fetchError g h =
     (case getBlock (provider g) h of Inl e \<Rightarrow> e | _ \<Rightarrow> TypeError ''block is null'')"

text \<open>
  What the loop does for the log at position \<open>j\<close> of the window when nothing stops
  it: one \<^verbatim>\<open>getBlock\<close> if no earlier log had the same block hash, then the
  \<^verbatim>\<open>try\<close> block with the block's timestamp.
\<close>

definition logEffects :: "Ambient \<Rightarrow> Global \<Rightarrow> Log list \<Rightarrow> nat \<Rightarrow> effect list" where
  "logEffects amb g logs j =
     (if blockHash (logs ! j) \<in> blockHash ` set (take j logs) then []
      else [GetBlock (blockHash (logs ! j))])
     @ (case blockTime g (blockHash (logs ! j)) of
          Some t \<Rightarrow> tryBlock amb g j t (logs ! j)
        | None \<Rightarrow> [])"

fun isStorageSet :: "effect \<Rightarrow> bool" where
  "isStorageSet (StorageSet k n) = True"
| "isStorageSet _ = False"

fun isFetch :: "effect \<Rightarrow> bool" where
  "isFetch (GetBlock h) = True"
| "isFetch _ = False"

fun isGetLogs :: "effect \<Rightarrow> bool" where
  "isGetLogs (GetLogs q) = True"
| "isGetLogs _ = False"

text \<open>
  The instruction the attachment has for an argument of a parsed log, and whether the
  turn of an argument in the \<^verbatim>\<open>forEach\<close> assigns to the field \<open>k\<close> of the record:
  an argument with an instruction assigns to its own name, and to \<open>distinct_id\<close> when
  it is marked.
\<close>

definition instructionFor :: "Global \<Rightarrow> ParsedLog \<Rightarrow> string \<Rightarrow> ArgInstruction option" where
  "instructionFor g parsedLog argName =
     (case eventParsingInstructions g of
        None \<Rightarrow> None
      | Some instructions \<Rightarrow>
          (case instructions (ParsedLog.name parsedLog) of
             None \<Rightarrow> None
           | Some eventParsingInstruction \<Rightarrow> eventParsingInstruction argName))"

fun writes :: "(string \<rightharpoonup> ArgInstruction) \<Rightarrow> string \<Rightarrow> string \<times> jsval \<Rightarrow> bool" where
  "writes epi k (a, w) =
     (case epi a of
        None \<Rightarrow> False
      | Some i \<Rightarrow> a = k \<or> (isDistinctId i = Some True \<and> k = ''distinct_id''))"

text \<open>
  Whether a value is or holds a BigNumber object (an array parameter is decoded to an
  array of its elements).
  How \<^verbatim>\<open>parseLog\<close> stores a decoded value, the amount in wei that a decimal string of
  ether denotes (the whole part and up to eighteen decimals, read back), and the shape
  of such a string: an optional minus sign, digits, a point, one to eighteen digits.
\<close>

fun hasBigNumber :: "jsval \<Rightarrow> bool" where
  "hasBigNumber (BigNumber n) = True"
| "hasBigNumber (JArr xs) = (\<exists>x\<in>set xs. hasBigNumber x)"
| "hasBigNumber _ = False"

definition asStored :: "jsval \<Rightarrow> jsval" where
  "asStored v = (case v of BigNumber n \<Rightarrow> JStr (toHexString n) | _ \<Rightarrow> v)"

definition weiOf :: "string \<Rightarrow> int" where
  "weiOf s =
     (let (neg, body) = stripSign s;
          whole = takeWhile (\<lambda>c. c \<noteq> CHR ''.'') body;
          fraction = drop (Suc (length whole)) body
      in signed neg (digitsVal 10 whole * 10 ^ 18
                     + digitsVal 10 fraction * 10 ^ (18 - length fraction)))"

definition isDecimalString :: "string \<Rightarrow> bool" where
  "isDecimalString s =
     (let (neg, body) = stripSign s;
          whole = takeWhile (\<lambda>c. c \<noteq> CHR ''.'') body;
          fraction = drop (Suc (length whole)) body
      in body = whole @ ''.'' @ fraction \<and>
         whole \<noteq> [] \<and> list_all isDecDigit whole \<and>
         fraction \<noteq> [] \<and> list_all isDecDigit fraction \<and> length fraction \<le> 18)"

section \<open>A contract to run the plugin on\<close>

text \<open>
  The contract of the README: an event \<open>Transfer(address to, uint256 amount)\<close>, with
  \<open>to\<close> marked as the distinct id and \<open>amount\<close> read as ether. A second, anonymous
  event, an event \<open>Sealed(uint256 blockNumber)\<close> with no instructions, and a topic
  the interface does not know are added, a payload the decoder
  refuses (\<open>0x\<close>), one whose amount is no number (\<open>0x02\<close>), a sink that fails on the
  fifth log of a window, and blocks the provider cannot deliver.
\<close>

definition transferFragment :: EventFragment where
  "transferFragment = \<lparr>EventFragment.name = ''Transfer'', anonymous = False,
                         format = ''Transfer(address,uint256)''\<rparr>"

definition hiddenFragment :: EventFragment where
  "hiddenFragment = \<lparr>EventFragment.name = ''Hidden'', anonymous = True,
                       format = ''Hidden(uint256)''\<rparr>"

definition sealedFragment :: EventFragment where
  "sealedFragment = \<lparr>EventFragment.name = ''Sealed'', anonymous = False,
                       format = ''Sealed(uint256)''\<rparr>"

definition exampleInterface :: Interface where
  "exampleInterface =
     \<lparr>getEvent = (\<lambda>topic.
         if topic = Some ''0xddf2'' then Inr (Some transferFragment)
         else if topic = Some ''0xa1de'' then Inr (Some hiddenFragment)
         else if topic = Some ''0x5ea1'' then Inr (Some sealedFragment)
         else if topic = Some ''0x0000'' then Inr None
         else Inl (EthersError ''no matching event'')),
       decodeEventLog = (\<lambda>fragment d ts.
         if d = ''0x'' then Inl (EthersError ''data out-of-bounds'')
         else if EventFragment.name fragment = ''Sealed'' then
           Inr [(''0'', BigNumber 7), (''blockNumber'', BigNumber 7)]
         else if d = ''0x02'' then
           Inr [(''0'', JStr ''0xABC''), (''1'', JStr ''n/a''),
                (''to'', JStr ''0xABC''), (''amount'', JStr ''n/a'')]
         else Inr [(''0'', JStr ''0xABC''), (''1'', BigNumber 2000000000000000000),
                   (''to'', JStr ''0xABC''), (''amount'', BigNumber 2000000000000000000)])\<rparr>"

definition exampleLog :: "string \<Rightarrow> string \<Rightarrow> string \<Rightarrow> Log" where
  "exampleLog topic d h =
     \<lparr>Log.address = ''0xc0ffee'', topics = [topic], data = d, blockNumber = 5010, blockHash = h\<rparr>"

definition exampleProvider :: "int \<Rightarrow> Log list \<Rightarrow> InfuraProvider" where
  "exampleProvider latest logs =
     \<lparr>getBlockNumber = Inr latest,
       getLogs = (\<lambda>q. Inr logs),
       getBlock = (\<lambda>h. if h = ''0xb1'' then Inr (Some \<lparr>timestamp = 1600000000\<rparr>)
                       else if h = ''0xb2'' then Inr (Some \<lparr>timestamp = 1600000013\<rparr>)
                       else if h = ''0xb3'' then Inr None
                       else Inl (ExternalError ''timeout''))\<rparr>"

definition exampleInstructions :: EventParsingInstruction where
  "exampleInstructions =
     [''Transfer'' \<mapsto>
        [''to'' \<mapsto> \<lparr>isDistinctId = Some True, argType = None\<rparr>,
         ''amount'' \<mapsto> \<lparr>isDistinctId = None, argType = Some ''eth''\<rparr>]]"

definition exampleAmbient :: Ambient where
  "exampleAmbient =
     \<lparr>posthog_capture = (\<lambda>i n d. if i = 4 then Some (ExternalError ''sink is down'') else None),
       parseBytes32String = (\<lambda>v. Inl (EthersError ''invalid bytes32''))\<rparr>"

definition exampleMeta :: "int option \<Rightarrow> int option \<Rightarrow> int \<Rightarrow> Log list \<Rightarrow> Meta" where
  "exampleMeta fromB checkpoint latest logs =
     \<lparr>global = \<lparr>provider = exampleProvider latest logs,
                  blockNumberToIngestFrom = fromB,
                  contractInterface = exampleInterface,
                  eventParsingInstructions = Some exampleInstructions\<rparr>,
       config = \<lparr>contractAddress = ''0xc0ffee''\<rparr>,
       storage = (case checkpoint of None \<Rightarrow> Map.empty
                  | Some b \<Rightarrow> [STORAGE_KEY_LAST_INGESTED_BLOCK_NUMBER \<mapsto> b])\<rparr>"

text \<open>
  A window of six logs in two blocks: a payload the decoder refuses, an anonymous
  event, an amount that is no number, a good transfer, and two more good transfers in
  the next block, the first of which the sink refuses. \<open>transferRecord\<close> is the record
  of a good transfer and \<open>exampleTrace\<close> what a cycle over the window does. In
  \<open>brokenWindow\<close> the provider cannot deliver the block of the second log.
\<close>

definition exampleWindow :: "Log list" where
  "exampleWindow =
     [exampleLog ''0xddf2'' ''0x'' ''0xb1'',
      exampleLog ''0xa1de'' ''0x01'' ''0xb1'',
      exampleLog ''0xddf2'' ''0x02'' ''0xb1'',
      exampleLog ''0xddf2'' ''0x01'' ''0xb1'',
      exampleLog ''0xddf2'' ''0x01'' ''0xb2'',
      exampleLog ''0xddf2'' ''0x01'' ''0xb2'']"

definition transferRecord :: "int \<Rightarrow> string \<Rightarrow> obj" where
  "transferRecord t h =
     [(''$timestamp'', JNum t), (''blockNumber'', JNum 5010), (''blockHash'', JStr h),
      (''to'', JStr ''0xABC''), (''amount'', JStr ''2.0''), (''distinct_id'', JStr ''0xABC'')]"

definition exampleTrace :: "effect list" where
  "exampleTrace =
      [GetBlockNumber, StorageGet STORAGE_KEY_LAST_INGESTED_BLOCK_NUMBER,
       GetLogs \<lparr>filter_spec.address = ''0xc0ffee'', fromBlock = None, toBlock = 5010\<rparr>,
       GetBlock ''0xb1'',
       ConsoleError (EthersError ''data out-of-bounds''),
       ConsoleError (TypeError ''parsedLog is null''),
       ConsoleError (EthersError ''invalid BigNumber string''),
       Capture ''Transfer'' (transferRecord 1600000000 ''0xb1''),
       GetBlock ''0xb2'',
       Capture ''Transfer'' (transferRecord 1600000013 ''0xb2''),
       ConsoleError (ExternalError ''sink is down''),
       Capture ''Transfer'' (transferRecord 1600000013 ''0xb2''),
       StorageSet STORAGE_KEY_LAST_INGESTED_BLOCK_NUMBER 5010]"

definition brokenWindow :: "Log list" where
  "brokenWindow =
     [exampleLog ''0xddf2'' ''0x01'' ''0xb1'',
      exampleLog ''0xddf2'' ''0x01'' ''0xb4'',
      exampleLog ''0xddf2'' ''0x01'' ''0xb2'']"

text \<open>What \<^verbatim>\<open>parseLog\<close> returns for the two events, and the record of \<open>Sealed\<close>.\<close>

definition sealedRecord :: "int \<Rightarrow> string \<Rightarrow> obj" where
  "sealedRecord t h =
     [(''$timestamp'', JNum t), (''blockNumber'', JStr ''0x07''), (''blockHash'', JStr h)]"

definition transferParsed :: ParsedLog where
  "transferParsed =
     \<lparr>eventFragment = transferFragment, name = ''Transfer'',
       signature = ''Transfer(address,uint256)'',
       namedArgs = [(''to'', JStr ''0xABC''), (''amount'', JStr ''0x1bc16d674ec80000'')]\<rparr>"

definition sealedParsed :: ParsedLog where
  "sealedParsed =
     \<lparr>eventFragment = sealedFragment, name = ''Sealed'', signature = ''Sealed(uint256)'',
       namedArgs = [(''blockNumber'', JStr ''0x07'')]\<rparr>"

text \<open>
  A contract with an event \<open>Batch(uint256[] ids)\<close>: the decoder returns the array of
  the elements, each a BigNumber, under the position and under the name.
\<close>

definition batchFragment :: EventFragment where
  "batchFragment = \<lparr>EventFragment.name = ''Batch'', anonymous = False,
                      format = ''Batch(uint256[])''\<rparr>"

definition batchInterface :: Interface where
  "batchInterface =
     \<lparr>getEvent = (\<lambda>topic.
         if topic = Some ''0xba7c'' then Inr (Some batchFragment)
         else Inl (EthersError ''no matching event'')),
       decodeEventLog = (\<lambda>fragment d ts.
         Inr [(''0'', JArr [BigNumber 1, BigNumber 18446744073709551616]),
              (''ids'', JArr [BigNumber 1, BigNumber 18446744073709551616])])\<rparr>"

section \<open>The example, evaluated\<close>

lemma parseInt_examples:
  "parseInt ''0'' = Some 0" "parseInt ''1'' = Some 1" "parseInt ''to'' = None" "parseInt ''amount'' = None"
  by (simp_all add: parseInt_def isWhiteSpace_def isDecDigit_def isHexDigit_def digitsVal_def digitVal_def signed_def)

lemma toHexString_2eth: "toHexString 2000000000000000000 = ''0x1bc16d674ec80000''"
  by code_simp

lemma fromString_2eth: "fromString ''0x1bc16d674ec80000'' = Inr 2000000000000000000"
  by code_simp

lemma formatEther_2eth: "formatEther 2000000000000000000 = ''2.0''"
  by code_simp

lemma fromString_na: "fromString ''n/a'' = Inl (EthersError ''invalid BigNumber string'')"
  by code_simp

lemma tryBlock_transfer:
  "tryBlock exampleAmbient (global (exampleMeta fb cp latest logs)) i t (exampleLog ''0xddf2'' ''0x01'' h)
     = (if i = 4 then [Capture ''Transfer'' (transferRecord t h), ConsoleError (ExternalError ''sink is down'')]
        else [Capture ''Transfer'' (transferRecord t h)])"
  by (simp add: tryBlock_def parseLog_def exampleMeta_def exampleInterface_def exampleLog_def
      transferFragment_def keepNamed_def isNaN_def parseInt_examples toHexString_2eth
      buildEventData_def seedEventData_def exampleInstructions_def applyInstruction_def coerce_def
      BigNumber_from_def fromString_2eth formatEther_2eth exampleAmbient_def transferRecord_def)

lemma tryBlock_undecodable:
  "tryBlock exampleAmbient (global (exampleMeta fb cp latest logs)) i t (exampleLog ''0xddf2'' ''0x'' h)
     = [ConsoleError (EthersError ''data out-of-bounds'')]"
  by (simp add: tryBlock_def parseLog_def exampleMeta_def exampleInterface_def exampleLog_def
      transferFragment_def)

lemma tryBlock_anonymous:
  "tryBlock exampleAmbient (global (exampleMeta fb cp latest logs)) i t (exampleLog ''0xa1de'' ''0x01'' h)
     = [ConsoleError (TypeError ''parsedLog is null'')]"
  by (simp add: tryBlock_def parseLog_def exampleMeta_def exampleInterface_def exampleLog_def
      hiddenFragment_def)

lemma tryBlock_not_a_number:
  "tryBlock exampleAmbient (global (exampleMeta fb cp latest logs)) i t (exampleLog ''0xddf2'' ''0x02'' h)
     = [ConsoleError (EthersError ''invalid BigNumber string'')]"
  by (simp add: tryBlock_def parseLog_def exampleMeta_def exampleInterface_def exampleLog_def
      transferFragment_def keepNamed_def isNaN_def parseInt_examples
      buildEventData_def seedEventData_def exampleInstructions_def applyInstruction_def coerce_def
      BigNumber_from_def fromString_na exampleAmbient_def)

lemmas tryBlock_examples = tryBlock_transfer tryBlock_undecodable tryBlock_anonymous tryBlock_not_a_number

lemma example_selectors [simp]:
  "blockHash (exampleLog topic d h) = h"
  "provider (global (exampleMeta fb cp latest logs)) = exampleProvider latest logs"
  "getBlock (exampleProvider latest logs) ''0xb1'' = Inr (Some \<lparr>timestamp = 1600000000\<rparr>)"
  "getBlock (exampleProvider latest logs) ''0xb2'' = Inr (Some \<lparr>timestamp = 1600000013\<rparr>)"
  "getBlock (exampleProvider latest logs) ''0xb3'' = Inr None"
  "getBlock (exampleProvider latest logs) ''0xb4'' = Inl (ExternalError ''timeout'')"
  "getBlockNumber (exampleProvider latest logs) = Inr latest"
  "getLogs (exampleProvider latest logs) q = Inr logs"
  by (simp_all add: exampleLog_def exampleMeta_def exampleProvider_def)

lemma example_loop:
  "forLogs exampleAmbient (global (exampleMeta fb cp latest logs)) 0 Map.empty exampleWindow
     = ([GetBlock ''0xb1'',
       ConsoleError (EthersError ''data out-of-bounds''),
       ConsoleError (TypeError ''parsedLog is null''),
       ConsoleError (EthersError ''invalid BigNumber string''),
       Capture ''Transfer'' (transferRecord 1600000000 ''0xb1''),
       GetBlock ''0xb2'',
       Capture ''Transfer'' (transferRecord 1600000013 ''0xb2''),
       ConsoleError (ExternalError ''sink is down''),
       Capture ''Transfer'' (transferRecord 1600000013 ''0xb2'')], None)"
  unfolding exampleWindow_def
  by (simp add: tryBlock_examples)

lemma example_run:
  "5010 - c \<le> 1000 \<Longrightarrow>
   runEveryMinute exampleAmbient (exampleMeta None (Some c) 5010 exampleWindow) =
     (exampleMeta None (Some 5010) 5010 exampleWindow, exampleTrace, None)"
  unfolding runEveryMinute_def Let_def exampleTrace_def
  by (simp add: example_loop getLastIngestedBlockNumber_def)
    (simp add: exampleMeta_def setLastIngestedBlockNumber_def)

lemma broken_loop:
  "forLogs exampleAmbient (global (exampleMeta fb cp latest logs)) 0 Map.empty brokenWindow
     = ([GetBlock ''0xb1'', Capture ''Transfer'' (transferRecord 1600000000 ''0xb1''),
         GetBlock ''0xb4''], Some (ExternalError ''timeout''))"
  unfolding brokenWindow_def
  by (simp add: tryBlock_examples)

lemma broken_run:
  "runEveryMinute exampleAmbient (exampleMeta None (Some 5000) 5010 brokenWindow) =
     (exampleMeta None (Some 5000) 5010 brokenWindow,
      [GetBlockNumber, StorageGet STORAGE_KEY_LAST_INGESTED_BLOCK_NUMBER,
       GetLogs \<lparr>filter_spec.address = ''0xc0ffee'', fromBlock = None, toBlock = 5010\<rparr>,
       GetBlock ''0xb1'', Capture ''Transfer'' (transferRecord 1600000000 ''0xb1''),
       GetBlock ''0xb4''],
      Some (ExternalError ''timeout''))"
  unfolding runEveryMinute_def Let_def
  by (simp add: broken_loop getLastIngestedBlockNumber_def)
    (simp add: exampleMeta_def)

lemma example_blocks:
  "blockTime (global (exampleMeta fb cp latest logs)) ''0xb1'' = Some 1600000000"
  "blockTime (global (exampleMeta fb cp latest logs)) ''0xb2'' = Some 1600000013"
  "blockTime (global (exampleMeta fb cp latest logs)) ''0xb4'' = None"
  "fetchError (global (exampleMeta fb cp latest logs)) ''0xb4'' = ExternalError ''timeout''"
  by (simp_all add: blockTime_def fetchError_def)

lemma toHexString_7: "toHexString 7 = ''0x07''"
  by code_simp

lemma parseInt_blockNumber: "parseInt ''blockNumber'' = None"
  by (simp add: parseInt_def isWhiteSpace_def isDecDigit_def isHexDigit_def)

lemma parseLog_transfer:
  "parseLog (contractInterface (global (exampleMeta fb cp latest logs)))
     (exampleLog ''0xddf2'' ''0x01'' h) = Inr (Some transferParsed)"
  by (simp add: parseLog_def exampleMeta_def exampleInterface_def exampleLog_def
      transferFragment_def keepNamed_def isNaN_def parseInt_examples toHexString_2eth
      transferParsed_def)

lemma parseLog_sealed:
  "parseLog (contractInterface (global (exampleMeta fb cp latest logs)))
     (exampleLog ''0x5ea1'' ''0x01'' h) = Inr (Some sealedParsed)"
  by (simp add: parseLog_def exampleMeta_def exampleInterface_def exampleLog_def
      sealedFragment_def keepNamed_def isNaN_def parseInt_examples parseInt_blockNumber
      toHexString_7 sealedParsed_def)

lemma tryBlock_sealed:
  "tryBlock exampleAmbient (global (exampleMeta fb cp latest logs)) 0 t (exampleLog ''0x5ea1'' ''0x01'' h)
     = [Capture ''Sealed'' (sealedRecord t h)]"
  unfolding tryBlock_def parseLog_sealed
  by (simp add: sealedParsed_def sealedRecord_def
      buildEventData_def seedEventData_def exampleMeta_def exampleInstructions_def
      exampleAmbient_def exampleLog_def)

section \<open>The window of a cycle\<close>

text \<open>
  C1. The window of the spec is \<open>[max(lastIngested, latest - 1000), latest]\<close>. The code
  assigns \<^verbatim>\<open>global.blockNumberToIngestFrom\<close> only when the checkpoint is more than
  1000 blocks behind, and passes that field to \<^verbatim>\<open>getLogs\<close>: with a checkpoint of
  5000, a head of 5010 and a \<^verbatim>\<open>global\<close> fresh from \<^verbatim>\<open>setupPlugin\<close>, the filter has no
  \<open>fromBlock\<close> at all, where the spec has 5000; and when an earlier cycle left 2000 in
  the field, the filter starts at 2000.
\<close>

theorem runEveryMinute_fromBlock_unset:
  "snd (runEveryMinute exampleAmbient (exampleMeta None (Some 5000) 5010 [])) =
     ([GetBlockNumber, StorageGet STORAGE_KEY_LAST_INGESTED_BLOCK_NUMBER,
       GetLogs \<lparr>filter_spec.address = ''0xc0ffee'', fromBlock = None, toBlock = 5010\<rparr>,
       StorageSet STORAGE_KEY_LAST_INGESTED_BLOCK_NUMBER 5010], None) \<and>
   snd (runEveryMinute exampleAmbient (exampleMeta (Some 2000) (Some 5000) 5010 [])) =
     ([GetBlockNumber, StorageGet STORAGE_KEY_LAST_INGESTED_BLOCK_NUMBER,
       GetLogs \<lparr>filter_spec.address = ''0xc0ffee'', fromBlock = Some 2000, toBlock = 5010\<rparr>,
       StorageSet STORAGE_KEY_LAST_INGESTED_BLOCK_NUMBER 5010], None)"
  by (simp add: runEveryMinute_def exampleMeta_def getLastIngestedBlockNumber_def
      setLastIngestedBlockNumber_def)

section \<open>Coercion\<close>

text \<open>
  C2. The README lists \<open>int\<close>, \<open>boolean\<close> and \<open>hex\<close> among the argument types, and the
  spec gives each a meaning; the code tests for \<open>eth\<close>, \<open>string\<close> and \<open>number\<close> only.
  A \<open>uint256\<close> of ten, which \<^verbatim>\<open>parseLog\<close> hands over as \<open>0x0a\<close>, stays \<open>0x0a\<close> under
  \<open>int\<close>, where the spec has the decimal string \<open>10\<close>; a \<open>uint8\<close> of one, a native
  number, stays the number under \<open>boolean\<close>, where the spec has a truth value.
\<close>

theorem coerce_int_leaves_hex:
  "coerce exampleAmbient \<lparr>isDistinctId = None, argType = Some ''int''\<rparr> (JStr (toHexString 10))
     = Inr (JStr ''0x0a'') \<and>
   coerce exampleAmbient \<lparr>isDistinctId = None, argType = Some ''boolean''\<rparr> (JNum 1)
     = Inr (JNum 1)"
  by (simp add: coerce_def toHexString_def toHex_def hexStr.simps digitChar_def)

section \<open>Logs that are no event\<close>

text \<open>
  C3. For a log of an anonymous event \<^verbatim>\<open>parseLog\<close> returns \<^verbatim>\<open>null\<close>, and the caller
  reads \<^verbatim>\<open>parsedLog.namedArgs\<close> without a test: nothing is sent to the sink, but a
  \<^verbatim>\<open>TypeError\<close> is raised, caught and reported on \<^verbatim>\<open>console.error\<close>, where the spec
  has no error and a silent skip. The same happens when \<^verbatim>\<open>getEvent\<close> returns nothing
  for the topic, and when it throws for a topic it does not know the exception is
  reported in the same way.
\<close>

theorem tryBlock_anonymous_reports_error:
  "tryBlock exampleAmbient (global (exampleMeta None None 5010 [])) 0 1600000000
     (exampleLog ''0xa1de'' ''0x01'' ''0xb1'') = [ConsoleError (TypeError ''parsedLog is null'')] \<and>
   tryBlock exampleAmbient (global (exampleMeta None None 5010 [])) 0 1600000000
     (exampleLog ''0x0000'' ''0x01'' ''0xb1'') = [ConsoleError (TypeError ''parsedLog is null'')] \<and>
   tryBlock exampleAmbient (global (exampleMeta None None 5010 [])) 0 1600000000
     (exampleLog ''0xffff'' ''0x01'' ''0xb1'') = [ConsoleError (EthersError ''no matching event'')]"
  by (simp add: tryBlock_def parseLog_def exampleMeta_def exampleInterface_def exampleLog_def
        hiddenFragment_def)

section \<open>The loop over the window\<close>

lemma tryBlock_effects:
  "e \<in> set (tryBlock amb g i t l) \<Longrightarrow> (\<exists>n d. e = Capture n d) \<or> (\<exists>x. e = ConsoleError x)"
  by (auto simp: tryBlock_def split: sum.splits option.splits)

lemma upt_shift: "[n ..< n + Suc k] = n # [Suc n ..< Suc n + k]"
  using upt_conv_Cons[of n "n + Suc k"] by (simp del: upt_Suc)

lemma forLogs_trace:
  assumes "dom cache = blockHash ` set pre"
      and "\<forall>h t. cache h = Some t \<longrightarrow> blockTime g h = Some t"
  shows "forLogs amb g (length pre) cache ls =
     (let k = length (takeWhile (\<lambda>l. blockTime g (blockHash l) \<noteq> None) ls) in
      (concat (map (logEffects amb g (pre @ ls)) [length pre ..< length pre + k])
         @ (if k < length ls then [GetBlock (blockHash (ls ! k))] else []),
       if k < length ls then Some (fetchError g (blockHash (ls ! k))) else None))"
  using assms
proof (induction ls arbitrary: pre cache)
  case Nil
  then show ?case by simp
next
  case (Cons l ls)
  let ?h = "blockHash l"
  let ?k = "length (takeWhile (\<lambda>l. blockTime g (blockHash l) \<noteq> None) ls)"
  have nth: "(pre @ l # ls) ! length pre = l" by simp
  have tk: "take (length pre) (pre @ l # ls) = pre" by simp
  have upt: "[length pre ..< length pre + Suc ?k] = length pre # [Suc (length pre) ..< Suc (length pre) + ?k]"
    by (rule upt_shift)
  have len: "length (pre @ [l]) = Suc (length pre)" and app: "(pre @ [l]) @ ls = pre @ l # ls"
    by simp_all
  show ?case
  proof (cases "cache ?h")
    case (Some t)
    then have bt: "blockTime g ?h = Some t" using Cons.prems(2) by blast
    have seen: "?h \<in> blockHash ` set pre" using Some Cons.prems(1) by (metis domI)
    have d: "dom cache = blockHash ` set (pre @ [l])" using seen Cons.prems(1) by auto
    have le: "logEffects amb g (pre @ l # ls) (length pre) = tryBlock amb g (length pre) t l"
      unfolding logEffects_def nth tk using seen bt by simp
    note IH = Cons.IH[of cache "pre @ [l]", OF d Cons.prems(2), unfolded len app Let_def]
    have tw: "length (takeWhile (\<lambda>l. blockTime g (blockHash l) \<noteq> None) (l # ls)) = Suc ?k"
      using bt by simp
    have step: "forLogs amb g (length pre) cache (l # ls) =
        (case forLogs amb g (Suc (length pre)) cache ls of
           (tr, r) \<Rightarrow> (tryBlock amb g (length pre) t l @ tr, r))"
      using Some by simp
    show ?thesis
      unfolding step IH Let_def tw upt by (simp add: le del: upt_Suc)
  next
    case None
    then have unseen: "?h \<notin> blockHash ` set pre" using Cons.prems(1) by (metis domIff)
    show ?thesis
    proof (cases "blockTime g ?h")
      case bad: None
      have tw: "length (takeWhile (\<lambda>l. blockTime g (blockHash l) \<noteq> None) (l # ls)) = 0"
        using bad by simp
      have "forLogs amb g (length pre) cache (l # ls) = ([GetBlock ?h], Some (fetchError g ?h))"
        using None bad by (simp add: blockTime_def fetchError_def split: sum.splits option.splits)
      then show ?thesis unfolding Let_def tw by simp
    next
      case (Some t)
      then obtain b where gb: "getBlock (provider g) ?h = Inr (Some b)" and tb: "timestamp b = t"
        by (auto simp: blockTime_def split: sum.splits option.splits)
      have d: "dom (cache(?h \<mapsto> t)) = blockHash ` set (pre @ [l])" using Cons.prems(1) by auto
      have c: "\<forall>h' t'. (cache(?h \<mapsto> t)) h' = Some t' \<longrightarrow> blockTime g h' = Some t'"
        using Cons.prems(2) Some by auto
      have le: "logEffects amb g (pre @ l # ls) (length pre) = GetBlock ?h # tryBlock amb g (length pre) t l"
        unfolding logEffects_def nth tk using unseen Some by simp
      note IH = Cons.IH[of "cache(?h \<mapsto> t)" "pre @ [l]", OF d c, unfolded len app Let_def]
      have tw: "length (takeWhile (\<lambda>l. blockTime g (blockHash l) \<noteq> None) (l # ls)) = Suc ?k"
        using Some by simp
      have step: "forLogs amb g (length pre) cache (l # ls) =
          (case forLogs amb g (Suc (length pre)) (cache(?h \<mapsto> t)) ls of
             (tr, r) \<Rightarrow> (GetBlock ?h # tryBlock amb g (length pre) t l @ tr, r))"
        using None gb tb by simp
      show ?thesis
        unfolding step IH Let_def tw upt by (simp add: le del: upt_Suc)
    qed
  qed
qed


lemma tryBlock_plain:
  "e \<in> set (tryBlock amb g i t l) \<Longrightarrow> \<not> isStorageSet e \<and> \<not> isFetch e \<and> \<not> isGetLogs e"
  by (auto dest: tryBlock_effects)

lemma logEffects_plain:
  "e \<in> set (logEffects amb g logs j) \<Longrightarrow> \<not> isStorageSet e \<and> \<not> isGetLogs e"
  by (auto simp: logEffects_def dest: tryBlock_plain split: if_splits option.splits)

lemma blockTime_global [simp]:
  "blockTime (g\<lparr>blockNumberToIngestFrom := x\<rparr>) = blockTime g"
  by (simp add: blockTime_def fun_eq_iff)

lemma fetchError_global [simp]:
  "fetchError (g\<lparr>blockNumberToIngestFrom := x\<rparr>) = fetchError g"
  by (simp add: fetchError_def fun_eq_iff)

lemma cycle_trace:
  assumes run: "runEveryMinute amb meta = (meta', tr, err)"
      and head: "getBlockNumber (provider (global meta)) = Inr latest"
      and asked: "GetLogs q \<in> set tr"
      and logs: "getLogs (provider (global meta)) q = Inr logs"
  defines "k \<equiv> length (takeWhile (\<lambda>l. blockTime (global meta) (blockHash l) \<noteq> None) logs)"
  shows "\<exists>before. (\<forall>e\<in>set before. \<not> isStorageSet e \<and> \<not> isFetch e) \<and>
     blockTime (global meta') = blockTime (global meta) \<and>
     provider (global meta') = provider (global meta) \<and>
     (if k < length logs then
        tr = before @ GetLogs q # concat (map (logEffects amb (global meta') logs) [0..<k])
               @ [GetBlock (blockHash (logs ! k))] \<and>
        err = Some (fetchError (global meta) (blockHash (logs ! k))) \<and>
        storage meta' = storage meta
      else
        tr = before @ GetLogs q # concat (map (logEffects amb (global meta') logs) [0..<k])
               @ [StorageSet STORAGE_KEY_LAST_INGESTED_BLOCK_NUMBER latest] \<and>
        err = None \<and>
        storage meta' = (storage meta)(STORAGE_KEY_LAST_INGESTED_BLOCK_NUMBER \<mapsto> latest))"
proof -
  define last where "last = (case getLastIngestedBlockNumber (storage meta) of None \<Rightarrow> latest | Some b \<Rightarrow> b)"
  define g where "g = (if latest - last > 1000
      then (global meta)\<lparr>blockNumberToIngestFrom := Some (latest - 1000)\<rparr> else global meta)"
  define before where "before = [GetBlockNumber, StorageGet STORAGE_KEY_LAST_INGESTED_BLOCK_NUMBER]
      @ (if latest - last > 1000 then [ConsoleWarn last latest] else [])"
  define q0 where "q0 = \<lparr>filter_spec.address = contractAddress (config meta),
      fromBlock = blockNumberToIngestFrom g, toBlock = latest\<rparr>"
  have pg: "provider g = provider (global meta)" by (simp add: g_def)
  have bg: "blockTime g = blockTime (global meta)" and fg: "fetchError g = fetchError (global meta)"
    by (simp_all add: g_def)
  have unfold: "runEveryMinute amb meta =
     (case getLogs (provider (global meta)) q0 of
        Inl e \<Rightarrow> (meta\<lparr>global := g\<rparr>, before @ [GetLogs q0], Some e)
      | Inr logs \<Rightarrow>
          (case forLogs amb g 0 Map.empty logs of
             (tr, Some e) \<Rightarrow> (meta\<lparr>global := g\<rparr>, before @ GetLogs q0 # tr, Some e)
           | (tr, None) \<Rightarrow>
               (meta\<lparr>global := g,
                     storage := setLastIngestedBlockNumber (storage meta) latest\<rparr>,
                before @ GetLogs q0 # tr
                @ [StorageSet STORAGE_KEY_LAST_INGESTED_BLOCK_NUMBER latest],
                None)))"
    unfolding runEveryMinute_def head last_def g_def before_def q0_def Let_def
    by (simp add: pg[unfolded g_def])
  have bplain: "\<forall>e\<in>set before. \<not> isStorageSet e \<and> \<not> isFetch e \<and> \<not> isGetLogs e"
    by (simp add: before_def)
  have ft: "forLogs amb g 0 Map.empty ls =
     (let k = length (takeWhile (\<lambda>l. blockTime g (blockHash l) \<noteq> None) ls) in
      (concat (map (logEffects amb g ls) [0 ..< k])
         @ (if k < length ls then [GetBlock (blockHash (ls ! k))] else []),
       if k < length ls then Some (fetchError g (blockHash (ls ! k))) else None))" for ls
    using forLogs_trace[of Map.empty "[]" g amb ls] by simp
  have nb: "GetLogs q \<notin> set before" by (simp add: before_def)
  have nl: "GetLogs q \<notin> set (fst (forLogs amb g 0 Map.empty ls))" for ls
    unfolding ft Let_def by (auto dest: logEffects_plain split: if_splits)
  have qq: "q = q0"
  proof (cases "getLogs (provider (global meta)) q0")
    case (Inl e)
    then show ?thesis using run asked nb unfolding unfold by auto
  next
    case (Inr ls)
    then show ?thesis using run asked nb nl[of ls] unfolding unfold
      by (auto split: prod.splits option.splits)
  qed
  have gm: "global meta' = g"
    using run logs unfolding unfold qq by (auto split: prod.splits option.splits)
  show ?thesis
    apply (rule exI[of _ before])
    using run logs bplain unfolding unfold qq gm k_def
    by (auto simp: ft Let_def bg fg pg setLastIngestedBlockNumber_def split: if_splits)
qed


lemma filter_none: "(\<And>e. e \<in> set xs \<Longrightarrow> \<not> P e) \<Longrightarrow> filter P xs = []"
  by (simp add: filter_empty_conv)

lemma loop_no_StorageSet:
  "filter isStorageSet (concat (map (logEffects amb g logs) js)) = []"
  by (rule filter_none) (auto dest: logEffects_plain)

lemma takeWhile_short:
  "x \<in> set xs \<Longrightarrow> \<not> P x \<Longrightarrow> length (takeWhile P xs) < length xs"
  by (induction xs) auto

lemma takeWhile_prefix_holds:
  "i < length (takeWhile P xs) \<Longrightarrow> P (xs ! i)"
proof -
  assume i: "i < length (takeWhile P xs)"
  then have "takeWhile P xs ! i \<in> set (takeWhile P xs)" by (rule nth_mem)
  then have "P (takeWhile P xs ! i)" by (rule set_takeWhileD[THEN conjunct2])
  then show ?thesis using i by (simp add: takeWhile_nth)
qed

lemma firstBad:
  fixes P :: "'a \<Rightarrow> bool"
  assumes "x \<in> set xs" "\<not> P x"
  shows "length (takeWhile P xs) < length xs \<and> \<not> P (xs ! length (takeWhile P xs))
           \<and> (\<forall>i<length (takeWhile P xs). P (xs ! i))"
  using takeWhile_short[of x xs P] assms nth_length_takeWhile[of P xs] takeWhile_prefix_holds[of _ P xs]
  by blast

text \<open>
  C4. A cycle whose head query, log query and block fetches succeed runs the \<^verbatim>\<open>try\<close>
  block of every log of the window, in order, whatever the \<^verbatim>\<open>try\<close> blocks of the other
  logs did (a failure in decoding, in the transformation or in the sink ends in
  \<^verbatim>\<open>console.error\<close> inside the block); it ends without an exception, and the
  checkpoint is written once, as the last effect, with the head read at the start.
\<close>

theorem per_log_failures_are_isolated:
  assumes run: "runEveryMinute amb meta = (meta', tr, err)"
      and head: "getBlockNumber (provider (global meta)) = Inr latest"
      and asked: "GetLogs q \<in> set tr"
      and logs: "getLogs (provider (global meta)) q = Inr logs"
      and blocks: "\<forall>l\<in>set logs. blockTime (global meta) (blockHash l) \<noteq> None"
  shows "err = None \<and>
         getLastIngestedBlockNumber (storage meta') = Some latest \<and>
         filter isStorageSet tr = [StorageSet STORAGE_KEY_LAST_INGESTED_BLOCK_NUMBER latest] \<and>
         (\<exists>before. tr = before @ GetLogs q
              # concat (map (logEffects amb (global meta') logs) [0..<length logs])
              @ [StorageSet STORAGE_KEY_LAST_INGESTED_BLOCK_NUMBER latest])"
proof -
  have k: "length (takeWhile (\<lambda>l. blockTime (global meta) (blockHash l) \<noteq> None) logs) = length logs"
    using blocks by (simp add: takeWhile_eq_all_conv[THEN iffD2])
  from cycle_trace[OF run head asked logs, unfolded k]
  obtain before where b: "\<forall>e\<in>set before. \<not> isStorageSet e \<and> \<not> isFetch e"
    and t: "tr = before @ GetLogs q # concat (map (logEffects amb (global meta') logs) [0..<length logs])
               @ [StorageSet STORAGE_KEY_LAST_INGESTED_BLOCK_NUMBER latest]"
    and e: "err = None"
    and s: "storage meta' = (storage meta)(STORAGE_KEY_LAST_INGESTED_BLOCK_NUMBER \<mapsto> latest)"
    by auto
  have fb: "filter isStorageSet before = []" using b by (auto intro: filter_none)
  have "filter isStorageSet tr = [StorageSet STORAGE_KEY_LAST_INGESTED_BLOCK_NUMBER latest]"
    unfolding t by (simp add: fb loop_no_StorageSet)
  then show ?thesis using t e s by (auto simp: getLastIngestedBlockNumber_def)
qed

theorem per_log_failures_are_isolated_witness:
  "list_all (\<lambda>l. blockTime (global (exampleMeta None (Some 5000) 5010 exampleWindow)) (blockHash l) \<noteq> None)
     exampleWindow \<and>
   runEveryMinute exampleAmbient (exampleMeta None (Some 5000) 5010 exampleWindow)
     = (exampleMeta None (Some 5010) 5010 exampleWindow, exampleTrace, None) \<and>
   getLastIngestedBlockNumber (storage (exampleMeta None (Some 5010) 5010 exampleWindow)) = Some 5010 \<and>
   filter isStorageSet exampleTrace = [StorageSet STORAGE_KEY_LAST_INGESTED_BLOCK_NUMBER 5010] \<and>
   ConsoleError (EthersError ''data out-of-bounds'') \<in> set exampleTrace \<and>
   Capture ''Transfer'' (transferRecord 1600000013 ''0xb2'') \<in> set exampleTrace"
proof -
  have run: "runEveryMinute exampleAmbient (exampleMeta None (Some 5000) 5010 exampleWindow)
     = (exampleMeta None (Some 5010) 5010 exampleWindow, exampleTrace, None)"
    by (rule example_run) simp
  have blocks: "\<forall>l\<in>set exampleWindow.
      blockTime (global (exampleMeta None (Some 5000) 5010 exampleWindow)) (blockHash l) \<noteq> None"
    by (simp add: exampleWindow_def example_blocks)
  have asked: "GetLogs \<lparr>filter_spec.address = ''0xc0ffee'', fromBlock = None, toBlock = 5010\<rparr>
      \<in> set exampleTrace"
    by (simp add: exampleTrace_def)
  from per_log_failures_are_isolated[OF run _ asked _ blocks, of 5010]
  have "getLastIngestedBlockNumber (storage (exampleMeta None (Some 5010) 5010 exampleWindow)) = Some 5010 \<and>
    filter isStorageSet exampleTrace = [StorageSet STORAGE_KEY_LAST_INGESTED_BLOCK_NUMBER 5010]"
    by simp
  moreover have "ConsoleError (EthersError ''data out-of-bounds'') \<in> set exampleTrace"
    "Capture ''Transfer'' (transferRecord 1600000013 ''0xb2'') \<in> set exampleTrace"
    by (simp_all add: exampleTrace_def)
  ultimately show ?thesis using run blocks by (simp add: list_all_iff)
qed

text \<open>
  C9. If the provider cannot deliver the block of some log of the window, the cycle
  ends with an exception at the first such log: the logs before it are handled, the
  failed \<^verbatim>\<open>getBlock\<close> is the last effect, no later log is touched, and the checkpoint
  is not written.
\<close>

theorem timestamp_failure_aborts_cycle:
  assumes run: "runEveryMinute amb meta = (meta', tr, err)"
      and head: "getBlockNumber (provider (global meta)) = Inr latest"
      and asked: "GetLogs q \<in> set tr"
      and logs: "getLogs (provider (global meta)) q = Inr logs"
      and bad: "l \<in> set logs" "blockTime (global meta) (blockHash l) = None"
  shows "\<exists>k<length logs.
           blockTime (global meta) (blockHash (logs ! k)) = None \<and>
           (\<forall>i<k. blockTime (global meta) (blockHash (logs ! i)) \<noteq> None) \<and>
           err = Some (fetchError (global meta) (blockHash (logs ! k))) \<and>
           storage meta' = storage meta \<and>
           filter isStorageSet tr = [] \<and>
           (\<exists>before. tr = before @ GetLogs q
                # concat (map (logEffects amb (global meta') logs) [0..<k])
                @ [GetBlock (blockHash (logs ! k))])"
proof -
  let ?P = "\<lambda>l. blockTime (global meta) (blockHash l) \<noteq> None"
  let ?k = "length (takeWhile ?P logs)"
  have fbad: "?k < length logs \<and> \<not> ?P (logs ! ?k) \<and> (\<forall>i<?k. ?P (logs ! i))"
    using firstBad[of l logs ?P] bad by blast
  have lt: "?k < length logs" using fbad by blast
  from cycle_trace[OF run head asked logs]
  obtain before where b: "\<forall>e\<in>set before. \<not> isStorageSet e \<and> \<not> isFetch e"
    and c: "if ?k < length logs then
        tr = before @ GetLogs q # concat (map (logEffects amb (global meta') logs) [0..<?k])
               @ [GetBlock (blockHash (logs ! ?k))] \<and>
        err = Some (fetchError (global meta) (blockHash (logs ! ?k))) \<and>
        storage meta' = storage meta
      else
        tr = before @ GetLogs q # concat (map (logEffects amb (global meta') logs) [0..<?k])
               @ [StorageSet STORAGE_KEY_LAST_INGESTED_BLOCK_NUMBER latest] \<and>
        err = None \<and>
        storage meta' = (storage meta)(STORAGE_KEY_LAST_INGESTED_BLOCK_NUMBER \<mapsto> latest)"
    by blast
  from c lt have t: "tr = before @ GetLogs q # concat (map (logEffects amb (global meta') logs) [0..<?k])
               @ [GetBlock (blockHash (logs ! ?k))]"
    and e: "err = Some (fetchError (global meta) (blockHash (logs ! ?k)))"
    and s: "storage meta' = storage meta"
    by simp_all
  have fb: "filter isStorageSet before = []" using b by (auto intro: filter_none)
  have "filter isStorageSet tr = []"
    unfolding t by (simp add: fb loop_no_StorageSet)
  with t e s fbad show ?thesis
    by (intro exI[of _ ?k] conjI exI[of _ before]) simp_all
qed


theorem timestamp_failure_aborts_cycle_witness:
  "blockTime (global (exampleMeta None (Some 5000) 5010 brokenWindow)) (blockHash (brokenWindow ! 1)) = None \<and>
   (\<exists>meta' tr e. runEveryMinute exampleAmbient (exampleMeta None (Some 5000) 5010 brokenWindow)
       = (meta', tr, Some e) \<and>
     storage meta' = storage (exampleMeta None (Some 5000) 5010 brokenWindow) \<and>
     filter isStorageSet tr = [])"
proof -
  let ?m = "exampleMeta None (Some 5000) 5010 brokenWindow"
  let ?tr = "[GetBlockNumber, StorageGet STORAGE_KEY_LAST_INGESTED_BLOCK_NUMBER,
       GetLogs \<lparr>filter_spec.address = ''0xc0ffee'', fromBlock = None, toBlock = 5010\<rparr>,
       GetBlock ''0xb1'', Capture ''Transfer'' (transferRecord 1600000000 ''0xb1''),
       GetBlock ''0xb4'']"
  have bad: "brokenWindow ! 1 \<in> set brokenWindow"
    "blockTime (global ?m) (blockHash (brokenWindow ! 1)) = None"
    by (simp_all add: brokenWindow_def example_blocks)
  have asked: "GetLogs \<lparr>filter_spec.address = ''0xc0ffee'', fromBlock = None, toBlock = 5010\<rparr>
      \<in> set ?tr"
    by simp
  from timestamp_failure_aborts_cycle[OF broken_run _ asked _ bad, of 5010]
  have "storage ?m = storage ?m \<and> filter isStorageSet ?tr = []"
    by auto
  then show ?thesis using bad(2) broken_run by simp
qed


lemma count_tryBlock [simp]: "count_list (tryBlock amb g i t l) (GetBlock h) = 0"
  by (auto simp: count_list_0_iff dest: tryBlock_effects)

lemma count_logEffects:
  "count_list (logEffects amb g logs k) (GetBlock h) =
     (if blockHash (logs ! k) = h \<and> h \<notin> blockHash ` set (take k logs) then 1 else 0)"
  by (auto simp: logEffects_def split: option.splits)

lemma count_loop:
  "k \<le> length logs \<Longrightarrow>
   count_list (concat (map (logEffects amb g logs) [0..<k])) (GetBlock h) =
     (if h \<in> blockHash ` set (take k logs) then 1 else 0)"
proof (induction k)
  case 0
  then show ?case by simp
next
  case (Suc k)
  then have lt: "k < length logs" by simp
  have tk: "take (Suc k) logs = take k logs @ [logs ! k]"
    using lt by (rule take_Suc_conv_app_nth)
  show ?case
    using Suc.IH lt unfolding tk by (auto simp: count_logEffects)
qed

lemma count_before:
  "\<forall>e\<in>set before. \<not> isStorageSet e \<and> \<not> isFetch e \<Longrightarrow> count_list before (GetBlock h) = 0"
  by (auto simp: count_list_0_iff)

lemma fetch_count:
  assumes run: "runEveryMinute amb meta = (meta', tr, err)"
      and head: "getBlockNumber (provider (global meta)) = Inr latest"
      and asked: "GetLogs q \<in> set tr"
      and logs: "getLogs (provider (global meta)) q = Inr logs"
      and l: "l \<in> set logs"
  shows "count_list tr (GetBlock (blockHash l)) \<le> 1 \<and>
         (err = None \<longrightarrow> count_list tr (GetBlock (blockHash l)) = 1)"
proof -
  let ?P = "\<lambda>l. blockTime (global meta) (blockHash l) \<noteq> None"
  let ?k = "length (takeWhile ?P logs)"
  let ?h = "blockHash l"
  from cycle_trace[OF run head asked logs]
  obtain before where b: "\<forall>e\<in>set before. \<not> isStorageSet e \<and> \<not> isFetch e"
    and c: "if ?k < length logs then
        tr = before @ GetLogs q # concat (map (logEffects amb (global meta') logs) [0..<?k])
               @ [GetBlock (blockHash (logs ! ?k))] \<and>
        err = Some (fetchError (global meta) (blockHash (logs ! ?k))) \<and>
        storage meta' = storage meta
      else
        tr = before @ GetLogs q # concat (map (logEffects amb (global meta') logs) [0..<?k])
               @ [StorageSet STORAGE_KEY_LAST_INGESTED_BLOCK_NUMBER latest] \<and>
        err = None \<and>
        storage meta' = (storage meta)(STORAGE_KEY_LAST_INGESTED_BLOCK_NUMBER \<mapsto> latest)"
    by blast
  have kle: "?k \<le> length logs" by (rule length_takeWhile_le)
  note cl = count_loop[OF kle, of amb "global meta'" ?h]
  show ?thesis
  proof (cases "?k < length logs")
    case True
    have notok: "\<not> ?P (logs ! ?k)" using True by (rule nth_length_takeWhile)
    have "blockHash (logs ! ?k) \<notin> blockHash ` set (take ?k logs)"
    proof
      assume "blockHash (logs ! ?k) \<in> blockHash ` set (take ?k logs)"
      then obtain x where x: "x \<in> set (takeWhile ?P logs)" and hx: "blockHash x = blockHash (logs ! ?k)"
        by (metis (no_types, lifting) imageE takeWhile_eq_take)
      from x have "?P x" by (rule set_takeWhileD[THEN conjunct2])
      with hx notok show False by simp
    qed
    then show ?thesis
      using c True cl by (auto simp: count_before[OF b])
  next
    case False
    then have all: "take ?k logs = logs" using kle by simp
    show ?thesis
      using c False cl l unfolding all by (auto simp: count_before[OF b])
  qed
qed

text \<open>
  C8. In a cycle, the block of a log of the window is fetched at most once, and exactly
  once when the cycle runs to its end, however many logs share the block hash. This
  holds for a cycle and for the cycle after it alike: the second fetches the hashes of
  its window again, nothing of the first cycle's cache is left.
\<close>

theorem one_fetch_per_block_hash:
  assumes first: "runEveryMinute amb meta = (meta1, tr1, err1)"
      and second: "runEveryMinute amb' meta1 = (meta2, tr2, err2)"
      and head: "getBlockNumber (provider (global meta)) = Inr latest"
      and asked1: "GetLogs q1 \<in> set tr1"
      and logs1: "getLogs (provider (global meta)) q1 = Inr logs1"
      and asked2: "GetLogs q2 \<in> set tr2"
      and logs2: "getLogs (provider (global meta)) q2 = Inr logs2"
  shows "(\<forall>l\<in>set logs1.
            count_list tr1 (GetBlock (blockHash l)) \<le> 1 \<and>
            (err1 = None \<longrightarrow> count_list tr1 (GetBlock (blockHash l)) = 1)) \<and>
         (\<forall>l\<in>set logs2.
            count_list tr2 (GetBlock (blockHash l)) \<le> 1 \<and>
            (err2 = None \<longrightarrow> count_list tr2 (GetBlock (blockHash l)) = 1))"
proof -
  from cycle_trace[OF first head asked1 logs1]
  have same: "provider (global meta1) = provider (global meta)" by blast
  have head2: "getBlockNumber (provider (global meta1)) = Inr latest"
    and logs2': "getLogs (provider (global meta1)) q2 = Inr logs2"
    using head logs2 by (simp_all add: same)
  show ?thesis
  proof (rule conjI; rule ballI)
    fix l assume "l \<in> set logs1"
    then show "count_list tr1 (GetBlock (blockHash l)) \<le> 1 \<and>
            (err1 = None \<longrightarrow> count_list tr1 (GetBlock (blockHash l)) = 1)"
      by (rule fetch_count[OF first head asked1 logs1])
  next
    fix l assume "l \<in> set logs2"
    then show "count_list tr2 (GetBlock (blockHash l)) \<le> 1 \<and>
            (err2 = None \<longrightarrow> count_list tr2 (GetBlock (blockHash l)) = 1)"
      by (rule fetch_count[OF second head2 asked2 logs2'])
  qed
qed

theorem one_fetch_per_block_hash_witness:
  "runEveryMinute exampleAmbient (exampleMeta None (Some 5000) 5010 exampleWindow)
     = (exampleMeta None (Some 5010) 5010 exampleWindow, exampleTrace, None) \<and>
   runEveryMinute exampleAmbient (exampleMeta None (Some 5010) 5010 exampleWindow)
     = (exampleMeta None (Some 5010) 5010 exampleWindow, exampleTrace, None) \<and>
   length (filter (\<lambda>l. blockHash l = ''0xb1'') exampleWindow) = 4 \<and>
   count_list exampleTrace (GetBlock ''0xb1'') = 1"
proof -
  have first: "runEveryMinute exampleAmbient (exampleMeta None (Some 5000) 5010 exampleWindow)
     = (exampleMeta None (Some 5010) 5010 exampleWindow, exampleTrace, None)"
    by (rule example_run) simp
  have second: "runEveryMinute exampleAmbient (exampleMeta None (Some 5010) 5010 exampleWindow)
     = (exampleMeta None (Some 5010) 5010 exampleWindow, exampleTrace, None)"
    by (rule example_run) simp
  have asked: "GetLogs \<lparr>filter_spec.address = ''0xc0ffee'', fromBlock = None, toBlock = 5010\<rparr>
      \<in> set exampleTrace"
    by (simp add: exampleTrace_def)
  have l: "exampleLog ''0xa1de'' ''0x01'' ''0xb1'' \<in> set exampleWindow"
    by (simp add: exampleWindow_def)
  from one_fetch_per_block_hash[OF first second _ asked _ asked, of 5010 exampleWindow exampleWindow] l
  have "count_list exampleTrace (GetBlock ''0xb1'') = 1"
    by fastforce
  moreover have "length (filter (\<lambda>l. blockHash l = ''0xb1'') exampleWindow) = 4"
    by (simp add: exampleWindow_def)
  ultimately show ?thesis using first second by simp
qed


section \<open>The record of an event\<close>

lemma keepNamed_distinct:
  "distinct (map fst named) \<Longrightarrow> distinct (map fst (keepNamed kv named))"
  by (cases kv) (auto simp: keepNamed_def distinct_update split: jsval.splits)

lemma fold_keepNamed_distinct:
  "distinct (map fst named) \<Longrightarrow> distinct (map fst (fold keepNamed args named))"
  by (induction args arbitrary: named) (simp_all add: keepNamed_distinct)

lemma parseLog_distinct:
  "parseLog ci l = Inr (Some parsedLog) \<Longrightarrow> distinct (map fst (namedArgs parsedLog))"
  by (auto simp: parseLog_def fold_keepNamed_distinct split: sum.splits option.splits if_splits)

lemma map_of_spread:
  "distinct (map fst args) \<Longrightarrow>
   map_of (fold (\<lambda>kv ed. AList.update (fst kv) (snd kv) ed) args al) k =
     (case map_of args k of Some v \<Rightarrow> Some v | None \<Rightarrow> map_of al k)"
proof (induction args arbitrary: al)
  case Nil
  then show ?case by simp
next
  case (Cons a args)
  obtain k' v' where a: "a = (k', v')" by (cases a)
  have "k' \<notin> fst ` set args" using Cons.prems a by simp
  then have none: "map_of args k' = None" by (simp add: map_of_eq_None_iff)
  show ?case using Cons a none by (auto simp: update_conv' split: option.splits)
qed

lemma forEachArg_append:
  "forEachArg amb epi (xs @ ys) ed =
     (case forEachArg amb epi xs ed of Inl e \<Rightarrow> Inl e | Inr ed' \<Rightarrow> forEachArg amb epi ys ed')"
  by (induction xs arbitrary: ed) (auto split: sum.splits)

lemma applyInstruction_other:
  assumes "applyInstruction amb epi (a, w) ed = Inr ed'" and "\<not> writes epi k (a, w)"
  shows "map_of ed' k = map_of ed k"
  using assms
  by (auto simp: applyInstruction_def update_conv' split: option.splits sum.splits if_splits)

lemma forEachArg_other:
  assumes "forEachArg amb epi args ed = Inr ed'"
      and "list_all (\<lambda>kv. \<not> writes epi k kv) args"
  shows "map_of ed' k = map_of ed k"
  using assms
proof (induction args arbitrary: ed)
  case Nil
  then show ?case by simp
next
  case (Cons a args)
  obtain k' w where a: "a = (k', w)" by (cases a)
  from Cons.prems(1) obtain mid where m: "applyInstruction amb epi (k', w) ed = Inr mid"
    and r: "forEachArg amb epi args mid = Inr ed'"
    by (auto simp: a split: sum.splits)
  have "map_of mid k = map_of ed k"
    using applyInstruction_other[OF m, of k] Cons.prems(2) a by simp
  moreover have "map_of ed' k = map_of mid k"
    using Cons.IH[OF r] Cons.prems(2) by simp
  ultimately show ?case by simp
qed

lemma other_names_do_not_write:
  "k \<notin> fst ` set args \<Longrightarrow> k \<noteq> ''distinct_id'' \<Longrightarrow> list_all (\<lambda>kv. \<not> writes epi k kv) args"
  by (force simp: list_all_iff split: option.splits)

lemma applyInstruction_own:
  assumes "applyInstruction amb epi (a, v) ed = Inr ed'" and "epi a = Some ins"
  shows "\<exists>c. coerce amb ins v = Inr c \<and> map_of ed' a = Some c \<and>
             (isDistinctId ins = Some True \<longrightarrow> map_of ed' ''distinct_id'' = Some c)"
  using assms
  by (auto simp: applyInstruction_def update_conv' split: option.splits sum.splits if_splits)

lemma applyInstruction_none:
  "epi a = None \<Longrightarrow> applyInstruction amb epi (a, v) ed = Inr ed"
  by (simp add: applyInstruction_def)


lemma forEachArg_split:
  assumes "forEachArg amb epi (pre @ (a, v) # post) ed = Inr ed'"
  obtains m1 m2 where "forEachArg amb epi pre ed = Inr m1"
    and "applyInstruction amb epi (a, v) m1 = Inr m2"
    and "forEachArg amb epi post m2 = Inr ed'"
    and "forEachArg amb epi (pre @ [(a, v)]) ed = Inr m2"
  using assms by (auto simp: forEachArg_append split: sum.splits)

lemma tryBlock_CaptureD:
  assumes "Capture n eventData \<in> set (tryBlock amb g i ts l)"
      and "parseLog (contractInterface g) l = Inr (Some parsedLog)"
  shows "buildEventData amb g ts l parsedLog = Inr eventData \<and> n = ParsedLog.name parsedLog"
  using assms by (auto simp: tryBlock_def split: sum.splits option.splits)

lemma forEachArg_key:
  assumes run: "forEachArg amb epi args ed = Inr ed'"
      and d: "distinct (map fst args)"
      and v: "map_of args k = Some v"
      and k: "k \<noteq> ''distinct_id''"
  shows "case epi k of
           None \<Rightarrow> map_of ed' k = map_of ed k
         | Some ins \<Rightarrow> \<exists>c. coerce amb ins v = Inr c \<and> map_of ed' k = Some c"
proof -
  from v have "(k, v) \<in> set args" by (rule map_of_SomeD)
  then obtain pre post where sp: "args = pre @ (k, v) # post" by (meson split_list)
  have npre: "k \<notin> fst ` set pre" and npost: "k \<notin> fst ` set post"
    using d unfolding sp by auto
  from run[unfolded sp] obtain m1 m2 where
    1: "forEachArg amb epi pre ed = Inr m1" and
    2: "applyInstruction amb epi (k, v) m1 = Inr m2" and
    3: "forEachArg amb epi post m2 = Inr ed'"
    by (rule forEachArg_split)
  have e1: "map_of m1 k = map_of ed k"
    using forEachArg_other[OF 1 other_names_do_not_write[OF npre k]] .
  have e3: "map_of ed' k = map_of m2 k"
    using forEachArg_other[OF 3 other_names_do_not_write[OF npost k]] .
  show ?thesis
  proof (cases "epi k")
    case None
    then show ?thesis using 2 e1 e3 by (simp add: applyInstruction_none)
  next
    case (Some ins)
    then show ?thesis using applyInstruction_own[OF 2 Some] e3 by auto
  qed
qed

text \<open>
  C10. For an argument of a decoded log named \<open>$timestamp\<close>, \<open>blockNumber\<close> or
  \<open>blockHash\<close>: the spread puts the decoded value over the base field, and the record
  sent to the sink holds the decoded value there, coerced if the argument has an
  instruction; the base value is gone.
\<close>

theorem argument_overwrites_base_field:
  assumes p: "parseLog (contractInterface g) l = Inr (Some parsedLog)"
      and c: "Capture n eventData \<in> set (tryBlock amb g i ts l)"
      and k: "k = ''$timestamp'' \<or> k = ''blockNumber'' \<or> k = ''blockHash''"
      and v: "map_of (namedArgs parsedLog) k = Some v"
  shows "map_of (seedEventData ts l (namedArgs parsedLog)) k = Some v \<and>
         (case instructionFor g parsedLog k of
            None \<Rightarrow> map_of eventData k = Some v
          | Some ins \<Rightarrow> \<exists>c. coerce amb ins v = Inr c \<and> map_of eventData k = Some c)"
proof -
  have d: "distinct (map fst (namedArgs parsedLog))" using p by (rule parseLog_distinct)
  have seed: "map_of (seedEventData ts l (namedArgs parsedLog)) k = Some v"
    unfolding seedEventData_def using map_of_spread[OF d] v by simp
  have b: "buildEventData amb g ts l parsedLog = Inr eventData"
    using tryBlock_CaptureD[OF c p] by simp
  have kd: "k \<noteq> ''distinct_id''" using k by auto
  show ?thesis
  proof (cases "eventParsingInstructions g")
    case None
    then show ?thesis using b seed by (simp add: buildEventData_def instructionFor_def)
  next
    case (Some instructions)
    show ?thesis
    proof (cases "instructions (ParsedLog.name parsedLog)")
      case None
      then show ?thesis using b seed Some by (simp add: buildEventData_def instructionFor_def)
    next
      case epi: (Some epi)
      have run: "forEachArg amb epi (namedArgs parsedLog)
                   (seedEventData ts l (namedArgs parsedLog)) = Inr eventData"
        using b Some epi by (simp add: buildEventData_def)
      have i: "instructionFor g parsedLog k = epi k"
        using Some epi by (simp add: instructionFor_def)
      show ?thesis
        using forEachArg_key[OF run d v kd] seed unfolding i
        by (auto split: option.splits)
    qed
  qed
qed


theorem argument_overwrites_base_field_witness:
  "parseLog (contractInterface (global (exampleMeta None None 5010 [])))
     (exampleLog ''0x5ea1'' ''0x01'' ''0xb1'') = Inr (Some sealedParsed) \<and>
   Capture ''Sealed'' (sealedRecord 1600000000 ''0xb1'')
     \<in> set (tryBlock exampleAmbient (global (exampleMeta None None 5010 [])) 0 1600000000
              (exampleLog ''0x5ea1'' ''0x01'' ''0xb1'')) \<and>
   map_of (namedArgs sealedParsed) ''blockNumber'' = Some (JStr ''0x07'') \<and>
   blockNumber (exampleLog ''0x5ea1'' ''0x01'' ''0xb1'') = 5010 \<and>
   map_of (sealedRecord 1600000000 ''0xb1'') ''blockNumber'' = Some (JStr ''0x07'')"
proof -
  let ?g = "global (exampleMeta None None 5010 [])"
  have c: "Capture ''Sealed'' (sealedRecord 1600000000 ''0xb1'')
     \<in> set (tryBlock exampleAmbient ?g 0 1600000000 (exampleLog ''0x5ea1'' ''0x01'' ''0xb1''))"
    by (simp add: tryBlock_sealed)
  have v: "map_of (namedArgs sealedParsed) ''blockNumber'' = Some (JStr ''0x07'')"
    by (simp add: sealedParsed_def)
  have i: "instructionFor ?g sealedParsed ''blockNumber'' = None"
    by (simp add: instructionFor_def exampleMeta_def exampleInstructions_def sealedParsed_def)
  from argument_overwrites_base_field[OF parseLog_sealed c _ v] i
  have "map_of (sealedRecord 1600000000 ''0xb1'') ''blockNumber'' = Some (JStr ''0x07'')"
    by simp
  then show ?thesis using parseLog_sealed c v by (simp add: exampleLog_def)
qed







section \<open>Hexadecimal strings\<close>

lemma below16: "(d::nat) < 16 \<Longrightarrow> d \<in> {0,1,2,3,4,5,6,7,8,9,10,11,12,13,14,15}"
  by simp arith

lemma digitChar_facts:
  assumes "d < 16"
  shows "digitVal (digitChar d) = d" and "isHexDigit (digitChar d)"
    and "d < 10 \<Longrightarrow> isDecDigit (digitChar d)"
    and "digitChar d \<noteq> CHR ''.''" and "digitChar d \<noteq> CHR ''-''"
  using below16[OF assms]
  by (auto simp: digitChar_def digitVal_def isDecDigit_def isHexDigit_def)

lemma digitsVal_snoc: "digitsVal r (xs @ [c]) = digitsVal r xs * r + digitVal c"
  by (simp add: digitsVal_def)

lemma digitsVal_hexStr: "digitsVal 16 (hexStr n) = n"
proof (induction n rule: hexStr.induct)
  case (1 n)
  show ?case
  proof (cases "n < 16")
    case True
    then show ?thesis by (simp add: hexStr.simps[of n] digitsVal_def digitChar_facts)
  next
    case False
    then show ?thesis
      using 1 by (simp add: hexStr.simps[of n] digitsVal_snoc digitChar_facts)
  qed
qed

lemma digitsVal_decStr: "digitsVal 10 (decStr n) = n"
proof (induction n rule: decStr.induct)
  case (1 n)
  show ?case
  proof (cases "n < 10")
    case True
    then show ?thesis by (simp add: decStr.simps[of n] digitsVal_def digitChar_facts)
  next
    case False
    then show ?thesis
      using 1 by (simp add: decStr.simps[of n] digitsVal_snoc digitChar_facts)
  qed
qed

lemma hexStr_digits: "list_all isHexDigit (hexStr n) \<and> hexStr n \<noteq> []"
proof (induction n rule: hexStr.induct)
  case (1 n)
  show ?case
  proof (cases "n < 16")
    case True
    then show ?thesis by (simp add: hexStr.simps[of n] digitChar_facts)
  next
    case False
    then show ?thesis
      using 1 by (simp add: hexStr.simps[of n] digitChar_facts)
  qed
qed

lemma decStr_digits: "list_all isDecDigit (decStr n) \<and> decStr n \<noteq> []"
proof (induction n rule: decStr.induct)
  case (1 n)
  show ?case
  proof (cases "n < 10")
    case True
    then show ?thesis by (simp add: decStr.simps[of n] digitChar_facts)
  next
    case False
    then show ?thesis
      using 1 by (simp add: decStr.simps[of n] digitChar_facts)
  qed
qed

lemma digitsVal_zero_Cons: "digitsVal r (CHR ''0'' # xs) = digitsVal r xs"
  by (simp add: digitsVal_def digitVal_def isDecDigit_def)

lemma trimZeroBytes_value: "digitsVal r (trimZeroBytes h) = digitsVal r h"
  by (induction h rule: trimZeroBytes.induct) (simp_all add: digitsVal_zero_Cons)

lemma trimZeroBytes_digits: "list_all isHexDigit h \<Longrightarrow> list_all isHexDigit (trimZeroBytes h)"
  by (induction h rule: trimZeroBytes.induct) simp_all

lemma trimZeroBytes_not_empty: "h \<noteq> [] \<Longrightarrow> trimZeroBytes h \<noteq> []"
  by (induction h rule: trimZeroBytes.induct) simp_all

lemma toHex_shape:
  "\<exists>b. toHex m = ''0x'' @ b \<and> b \<noteq> [] \<and> list_all isHexDigit b \<and> digitsVal 16 b = m"
proof -
  let ?h = "if odd (length (hexStr m)) then CHR ''0'' # hexStr m else hexStr m"
  have "?h \<noteq> []" "list_all isHexDigit ?h" "digitsVal 16 ?h = m"
    using hexStr_digits[of m]
    by (simp_all add: digitsVal_hexStr digitsVal_zero_Cons isHexDigit_def isDecDigit_def)
  then have "trimZeroBytes ?h \<noteq> [] \<and> list_all isHexDigit (trimZeroBytes ?h)
      \<and> digitsVal 16 (trimZeroBytes ?h) = m"
    by (simp add: trimZeroBytes_value trimZeroBytes_digits trimZeroBytes_not_empty)
  then show ?thesis by (simp add: toHex_def Let_def)
qed

lemma fromString_hex:
  assumes "b \<noteq> []" "list_all isHexDigit b"
  shows "fromString (''0x'' @ b) = Inr (int (digitsVal 16 b))"
    and "fromString (CHR ''-'' # ''0x'' @ b) = Inr (- int (digitsVal 16 b))"
  using assms by (simp_all add: fromString_def signed_def)

lemma fromString_toHexString: "fromString (toHexString n) = Inr n"
proof (cases "n < 0")
  case False
  obtain b where b: "toHex (nat n) = ''0x'' @ b" "b \<noteq> []" "list_all isHexDigit b"
    "digitsVal 16 b = nat n"
    using toHex_shape by blast
  show ?thesis using False b fromString_hex(1)[OF b(2,3)] by (simp add: toHexString_def)
next
  case True
  obtain b where b: "toHex (nat (- n)) = ''0x'' @ b" "b \<noteq> []" "list_all isHexDigit b"
    "digitsVal 16 b = nat (- n)"
    using toHex_shape by blast
  have "b \<noteq> ''00''"
  proof
    assume "b = ''00''"
    then have "digitsVal 16 b = 0" by (simp add: digitsVal_def digitVal_def isDecDigit_def)
    then show False using b(4) True by simp
  qed
  then have "toHex (nat (- n)) \<noteq> ''0x00''" using b(1) by simp
  then show ?thesis using True b fromString_hex(2)[OF b(2,3)] by (simp add: toHexString_def Let_def)
qed

lemma toHexString_exact: "BigNumber_from (JStr (toHexString n)) = Inr n"
  by (simp add: BigNumber_from_def fromString_toHexString)


section \<open>The named arguments of a log\<close>

lemma decDigit_char:
  assumes "isDecDigit c"
  shows "\<not> isWhiteSpace c" "c \<noteq> CHR ''-''" "c \<noteq> CHR ''+''" "c \<noteq> CHR ''x''" "c \<noteq> CHR ''X''"
    "c \<noteq> CHR ''.''"
  using assms by (auto simp: isDecDigit_def isWhiteSpace_def)

lemma parseInt_digits:
  assumes "s \<noteq> []" "list_all isDecDigit s"
  shows "parseInt s \<noteq> None"
proof -
  obtain c cs where s: "s = c # cs" using assms(1) by (cases s) auto
  have c: "isDecDigit c" and cs: "list_all isDecDigit cs" using assms(2) s by simp_all
  have 1: "dropWhile isWhiteSpace s = s" using c s by (simp add: decDigit_char)
  have 2: "readSign s = (False, s)" using c s by (simp add: decDigit_char)
  have 3: "take 2 s \<noteq> ''0x''" "take 2 s \<noteq> ''0X''"
    using cs s by (cases cs; auto simp: decDigit_char)+
  have 4: "takeWhile isDecDigit s \<noteq> []" using c s by simp
  show ?thesis
    unfolding parseInt_def 1 2 using 3 4 by (simp add: Let_def)
qed

lemma parseInt_decStr: "\<not> isNaN (parseInt (decStr i))"
  using parseInt_digits[of "decStr i"] decStr_digits[of i] by (simp add: isNaN_def)

lemma keepNamed_map_of:
  "map_of (keepNamed (k, v0) named) key =
     (if key = k \<and> isNaN (parseInt k) then Some (asStored v0) else map_of named key)"
  by (auto simp: keepNamed_def asStored_def update_conv' split: jsval.splits)

lemma fold_keepNamed_map_of:
  "map_of (fold keepNamed args named) key =
     (if isNaN (parseInt key) then
        (case map_of (rev args) key of
           Some v0 \<Rightarrow> Some (asStored v0)
         | None \<Rightarrow> map_of named key)
      else map_of named key)"
proof (induction args arbitrary: named)
  case Nil
  then show ?case by simp
next
  case (Cons a args)
  obtain k v0 where a: "a = (k, v0)" by (cases a)
  show ?case
    unfolding a by (auto simp: Cons keepNamed_map_of map_add_def split: option.splits)
qed

lemma map_of_rev_distinct:
  assumes "distinct (map fst xs)"
  shows "map_of (rev xs) = map_of xs"
proof
  fix k
  have d: "distinct (map fst (rev xs))" using assms by (simp add: rev_map[symmetric])
  show "map_of (rev xs) k = map_of xs k"
  proof (cases "map_of xs k")
    case None
    then have "map_of (rev xs) k = None" by (simp add: map_of_eq_None_iff)
    then show ?thesis using None by simp
  next
    case (Some v)
    then have "(k, v) \<in> set (rev xs)" by (auto dest: map_of_SomeD)
    then show ?thesis using Some d by simp
  qed
qed

lemma asStored_not_BigNumber: "asStored v \<noteq> BigNumber n"
  by (simp add: asStored_def split: jsval.splits)

text \<open>
  C5. When \<^verbatim>\<open>parseLog\<close> returns an event, every key of its \<open>namedArgs\<close> is a key of
  the decoded arguments for which \<^verbatim>\<open>parseInt\<close> gives \<^verbatim>\<open>NaN\<close>, so none is a position
  \<open>0\<close>, \<open>1\<close>, ...; no argument's value is itself a BigNumber; and every argument whose
  decoded value is a BigNumber is stored as its hexadecimal string, from which
  \<^verbatim>\<open>BigNumber.from\<close> reads the same integer back. The test \<^verbatim>\<open>BigNumber.isBigNumber\<close>
  is made on the argument's value only: it is not said of the elements of an array.
\<close>

theorem parseLog_named_arguments:
  assumes "parseLog ci l = Inr (Some parsedLog)"
  shows "\<exists>fragment args.
      getEvent ci (case topics l of [] \<Rightarrow> None | t # _ \<Rightarrow> Some t) = Inr (Some fragment) \<and>
      decodeEventLog ci fragment (data l) (topics l) = Inr args \<and>
      (\<forall>key v. map_of (namedArgs parsedLog) key = Some v \<longrightarrow>
          isNaN (parseInt key) \<and> (\<forall>i. key \<noteq> decStr i) \<and> (\<forall>n. v \<noteq> BigNumber n) \<and>
          (\<exists>v0. (key, v0) \<in> set args \<and> v = asStored v0)) \<and>
      (distinct (map fst args) \<longrightarrow>
         (\<forall>key n. (key, BigNumber n) \<in> set args \<and> isNaN (parseInt key) \<longrightarrow>
            map_of (namedArgs parsedLog) key = Some (JStr (toHexString n)))) \<and>
      (\<forall>n. BigNumber_from (JStr (toHexString n)) = Inr n)"
proof -
  from assms obtain fragment args where
    f: "getEvent ci (case topics l of [] \<Rightarrow> None | t # _ \<Rightarrow> Some t) = Inr (Some fragment)"
    and d: "decodeEventLog ci fragment (data l) (topics l) = Inr args"
    and n: "namedArgs parsedLog = fold keepNamed args []"
    by (auto simp: parseLog_def split: sum.splits option.splits if_splits)
  have only: "isNaN (parseInt key) \<and> (\<forall>i. key \<noteq> decStr i) \<and> (\<forall>n. v \<noteq> BigNumber n) \<and>
          (\<exists>v0. (key, v0) \<in> set args \<and> v = asStored v0)"
    if "map_of (namedArgs parsedLog) key = Some v" for key v
  proof -
    from that have nan: "isNaN (parseInt key)"
      and "\<exists>v0. map_of (rev args) key = Some v0 \<and> v = asStored v0"
      unfolding n fold_keepNamed_map_of by (auto split: if_splits option.splits)
    then obtain v0 where v0: "(key, v0) \<in> set args" "v = asStored v0"
      by (auto dest: map_of_SomeD)
    have idx: "key \<noteq> decStr i" for i using nan parseInt_decStr[of i] by auto
    have nb: "v \<noteq> BigNumber m" for m unfolding v0(2) by (rule asStored_not_BigNumber)
    show ?thesis using nan v0 idx nb by blast
  qed
  have big: "map_of (namedArgs parsedLog) key = Some (JStr (toHexString m))"
    if "distinct (map fst args)" "(key, BigNumber m) \<in> set args" "isNaN (parseInt key)" for key m
  proof -
    have "map_of (rev args) key = Some (BigNumber m)"
      using that(1,2) by (simp add: map_of_rev_distinct)
    then show ?thesis unfolding n fold_keepNamed_map_of using that(3) by (simp add: asStored_def)
  qed
  show ?thesis
    using f d only big toHexString_exact by blast
qed


theorem parseLog_named_arguments_witness:
  "parseLog (contractInterface (global (exampleMeta None None 5010 [])))
     (exampleLog ''0xddf2'' ''0x01'' ''0xb1'') = Inr (Some transferParsed) \<and>
   map_of (namedArgs transferParsed) ''amount'' = Some (JStr ''0x1bc16d674ec80000'') \<and>
   isNaN (parseInt ''amount'') \<and> ''amount'' \<noteq> decStr 1 \<and>
   BigNumber_from (JStr ''0x1bc16d674ec80000'') = Inr 2000000000000000000"
proof -
  have v: "map_of (namedArgs transferParsed) ''amount'' = Some (JStr ''0x1bc16d674ec80000'')"
    by (simp add: transferParsed_def)
  from parseLog_named_arguments[OF parseLog_transfer[of None None 5010 "[]" "''0xb1''"]]
  obtain args where
    a: "\<forall>key v. map_of (namedArgs transferParsed) key = Some v \<longrightarrow>
          isNaN (parseInt key) \<and> (\<forall>i. key \<noteq> decStr i) \<and> (\<forall>n. v \<noteq> BigNumber n) \<and>
          (\<exists>v0. (key, v0) \<in> set args \<and> v = asStored v0)"
    and b: "\<forall>n. BigNumber_from (JStr (toHexString n)) = Inr n"
    by blast
  from a v have "isNaN (parseInt ''amount'') \<and> ''amount'' \<noteq> decStr 1" by blast
  moreover from b have "BigNumber_from (JStr (toHexString 2000000000000000000)) = Inr 2000000000000000000"
    by blast
  ultimately show ?thesis using v parseLog_transfer by (simp add: toHexString_2eth)
qed

text \<open>
  Every integer as a hexadecimal string is too much: the elements of a \<open>uint256[]\<close>
  stay BigNumber objects, here \<open>2^64\<close>, which no native number holds.
\<close>

theorem parseLog_keeps_BigNumber_in_array:
  "parseLog batchInterface (exampleLog ''0xba7c'' ''0x01'' ''0xb1'') =
     Inr (Some \<lparr>eventFragment = batchFragment, name = ''Batch'',
                signature = ''Batch(uint256[])'',
                namedArgs = [(''ids'', JArr [BigNumber 1, BigNumber 18446744073709551616])]\<rparr>) \<and>
   hasBigNumber (JArr [BigNumber 1, BigNumber 18446744073709551616]) \<and>
   MAX_SAFE < 18446744073709551616"
proof -
  have "parseInt ''ids'' = None"
    by (simp add: parseInt_def isWhiteSpace_def isDecDigit_def isHexDigit_def)
  then show ?thesis
    by (simp add: parseLog_def batchInterface_def batchFragment_def exampleLog_def keepNamed_def
        isNaN_def parseInt_examples MAX_SAFE_def)
qed

section \<open>Ether\<close>

lemma decStr_length: "n < 10 ^ k \<Longrightarrow> 0 < k \<Longrightarrow> length (decStr n) \<le> k"
proof (induction n arbitrary: k rule: decStr.induct)
  case (1 n)
  show ?case
  proof (cases "n < 10")
    case True
    then show ?thesis using "1.prems" by (simp add: decStr.simps[of n])
  next
    case False
    obtain j where k: "k = Suc j" using "1.prems"(2) by (cases k) auto
    have "j \<noteq> 0" using False "1.prems"(1) k by (cases j) auto
    moreover have "n div 10 < 10 ^ j" using "1.prems"(1) k by (simp add: less_mult_imp_div_less mult.commute)
    ultimately have "length (decStr (n div 10)) \<le> j" using "1.IH"[OF False, of j] by simp
    then show ?thesis using False k by (simp add: decStr.simps[of n])
  qed
qed

lemma digitsVal_zeros_front: "digitsVal r (replicate k (CHR ''0'') @ xs) = digitsVal r xs"
  by (induction k) (simp_all add: digitsVal_zero_Cons)

lemma digitsVal_zeros_back: "digitsVal 10 (xs @ replicate k (CHR ''0'')) = digitsVal 10 xs * 10 ^ k"
proof (induction k)
  case 0
  then show ?case by simp
next
  case (Suc k)
  have "xs @ replicate (Suc k) (CHR ''0'') = (xs @ replicate k (CHR ''0'')) @ [CHR ''0'']"
    by (simp add: replicate_append_same)
  then have "digitsVal 10 (xs @ replicate (Suc k) (CHR ''0''))
      = digitsVal 10 (xs @ replicate k (CHR ''0'')) * 10 + digitVal (CHR ''0'')"
    by (simp only: digitsVal_snoc)
  then show ?case
    using Suc by (simp add: digitVal_def isDecDigit_def)
qed

lemma trailing_zeros:
  fixes f :: string
  defines "t \<equiv> rev (dropWhile (\<lambda>c. c = CHR ''0'') (rev f))"
  shows "f = t @ replicate (length f - length t) (CHR ''0'')"
proof -
  let ?z = "takeWhile (\<lambda>c. c = CHR ''0'') (rev f)"
  have "rev (?z @ dropWhile (\<lambda>c. c = CHR ''0'') (rev f)) = rev (rev f)"
    by (simp only: takeWhile_dropWhile_id)
  then have split: "f = t @ rev ?z" unfolding t_def by (simp only: rev_append rev_rev_ident)
  have "replicate (length (rev ?z)) (CHR ''0'') = rev ?z"
    by (rule replicate_length_same) (auto dest: set_takeWhileD)
  then have "rev ?z = replicate (length (rev ?z)) (CHR ''0'')" by (rule sym)
  moreover have "length (rev ?z) = length f - length t"
    using arg_cong[OF split, of length] by simp
  ultimately show ?thesis using split by simp
qed


lemma fraction_digits:
  assumes "r < 10 ^ 18"
  defines "F \<equiv> stripTrailingZeros (padFraction (decStr r))"
  shows "F \<noteq> []" and "list_all isDecDigit F" and "length F \<le> 18"
    and "digitsVal 10 F * 10 ^ (18 - length F) = r"
proof -
  let ?P = "padFraction (decStr r)"
  define t where "t = rev (dropWhile (\<lambda>c. c = CHR ''0'') (rev ?P))"
  have len: "length (decStr r) \<le> 18" using assms(1) by (rule decStr_length) simp
  then have lp: "length ?P = 18" by (simp add: padFraction_def)
  have dp: "list_all isDecDigit ?P"
    using decStr_digits[of r] by (auto simp: padFraction_def list_all_iff isDecDigit_def)
  have vp: "digitsVal 10 ?P = r"
    by (simp add: padFraction_def digitsVal_zeros_front digitsVal_decStr)
  have split: "?P = t @ replicate (18 - length t) (CHR ''0'')"
    using trailing_zeros[of ?P] lp by (simp add: t_def)
  have lt: "length t \<le> 18" using lp unfolding t_def by (metis length_dropWhile_le length_rev)
  have dt: "list_all isDecDigit t"
    using dp unfolding t_def by (auto simp: list_all_iff dest: set_dropWhileD)
  have vt: "digitsVal 10 t * 10 ^ (18 - length t) = r"
    using vp arg_cong[OF split, of "digitsVal 10"] by (simp add: digitsVal_zeros_back)
  have F: "F = (if t = [] then ''0'' else t)"
    by (simp add: F_def stripTrailingZeros_def Let_def t_def)
  show "F \<noteq> []" by (simp add: F)
  show "list_all isDecDigit F" using dt by (simp add: F isDecDigit_def)
  show "length F \<le> 18" using lt by (simp add: F)
  show "digitsVal 10 F * 10 ^ (18 - length F) = r"
  proof (cases "t = []")
    case True
    have "digitsVal 10 t = 0" unfolding True by (simp add: digitsVal_def)
    then have "r = 0" using vt by simp
    then show ?thesis using True by (simp add: F digitsVal_def digitVal_def isDecDigit_def)
  next
    case False
    then show ?thesis using vt by (simp add: F)
  qed
qed

lemma read_decimal:
  assumes W: "W \<noteq> []" "list_all isDecDigit W"
  shows "stripSign (W @ CHR ''.'' # F) = (False, W @ CHR ''.'' # F)"
    and "takeWhile (\<lambda>c. c \<noteq> CHR ''.'') (W @ CHR ''.'' # F) = W"
proof -
  obtain c cs where w: "W = c # cs" using W(1) by (cases W) auto
  then have "c \<noteq> CHR ''-''" using W(2) by (simp add: decDigit_char)
  then show "stripSign (W @ CHR ''.'' # F) = (False, W @ CHR ''.'' # F)" by (simp add: w)
  have "\<And>x. x \<in> set W \<Longrightarrow> x \<noteq> CHR ''.''"
    using W(2) by (auto simp: list_all_iff decDigit_char)
  then show "takeWhile (\<lambda>c. c \<noteq> CHR ''.'') (W @ CHR ''.'' # F) = W"
    by (simp add: takeWhile_append2)
qed

lemma formatEther_reads_back: "weiOf (formatEther n) = n \<and> isDecimalString (formatEther n)"
proof -
  define v where "v = nat \<bar>n\<bar>"
  define W where "W = decStr (v div 10 ^ 18)"
  define F where "F = stripTrailingZeros (padFraction (decStr (v mod 10 ^ 18)))"
  have r: "v mod 10 ^ 18 < 10 ^ 18" by simp
  note f = fraction_digits[OF r, folded F_def]
  have w: "W \<noteq> []" "list_all isDecDigit W" "digitsVal 10 W = v div 10 ^ 18"
    using decStr_digits[of "v div 10 ^ 18"] by (simp_all add: W_def digitsVal_decStr)
  note rd = read_decimal[OF w(1,2), of F]
  have fe: "formatEther n = (if n < 0 then CHR ''-'' # W @ CHR ''.'' # F else W @ CHR ''.'' # F)"
    by (simp add: formatEther_def Let_def v_def W_def F_def)
  have "digitsVal 10 W * 10 ^ 18 + digitsVal 10 F * 10 ^ (18 - length F) = v"
    unfolding w(3) f(4) by simp
  then have val: "int (digitsVal 10 W * 10 ^ 18 + digitsVal 10 F * 10 ^ (18 - length F)) = \<bar>n\<bar>"
    by (simp only: v_def)
  have body: "weiOf (W @ CHR ''.'' # F) = \<bar>n\<bar>" "isDecimalString (W @ CHR ''.'' # F)"
    using val w f by (simp_all add: weiOf_def isDecimalString_def rd signed_def del: of_nat_add of_nat_mult)
  have neg: "weiOf (CHR ''-'' # W @ CHR ''.'' # F) = - \<bar>n\<bar>"
    "isDecimalString (CHR ''-'' # W @ CHR ''.'' # F)"
    using val w f by (simp_all add: weiOf_def isDecimalString_def rd signed_def del: of_nat_add of_nat_mult)
  show ?thesis
    unfolding fe using body neg by auto
qed

text \<open>
  C6. Under the argument type \<open>eth\<close> a value that \<^verbatim>\<open>BigNumber.from\<close> accepts as the
  integer \<open>n\<close> becomes the string \<open>formatEther n\<close>, a decimal string that denotes
  \<open>n / 10^18\<close> exactly (read back as wei it is \<open>n\<close>); the amount
  1500000000000000000, as the BigNumber or as the hexadecimal string \<^verbatim>\<open>parseLog\<close>
  stores, becomes \<open>1.5\<close>.
\<close>

theorem eth_coercion:
  assumes "argType ins = Some ''eth''"
  shows "(\<forall>v n. BigNumber_from v = Inr n \<longrightarrow>
            coerce amb ins v = Inr (JStr (formatEther n)) \<and>
            isDecimalString (formatEther n) \<and> weiOf (formatEther n) = n) \<and>
         coerce amb ins (JStr (toHexString 1500000000000000000)) = Inr (JStr ''1.5'') \<and>
         coerce amb ins (BigNumber 1500000000000000000) = Inr (JStr ''1.5'')"
proof -
  have "toHexString 1500000000000000000 = ''0x14d1120d7b160000''" by code_simp
  moreover have "fromString ''0x14d1120d7b160000'' = Inr 1500000000000000000" by code_simp
  moreover have "formatEther 1500000000000000000 = ''1.5''" by code_simp
  ultimately show ?thesis
    using assms formatEther_reads_back by (simp add: coerce_def BigNumber_from_def)
qed

theorem eth_coercion_witness:
  "argType \<lparr>isDistinctId = None, argType = Some ''eth''\<rparr> = Some ''eth'' \<and>
   BigNumber_from (JStr ''0x1bc16d674ec80000'') = Inr 2000000000000000000 \<and>
   coerce exampleAmbient \<lparr>isDistinctId = None, argType = Some ''eth''\<rparr> (JStr ''0x1bc16d674ec80000'')
     = Inr (JStr ''2.0'') \<and>
   weiOf ''2.0'' = 2000000000000000000 \<and>
   coerce exampleAmbient \<lparr>isDistinctId = None, argType = Some ''eth''\<rparr>
     (BigNumber 1500000000000000000) = Inr (JStr ''1.5'')"
proof -
  let ?ins = "\<lparr>isDistinctId = None, argType = Some ''eth''\<rparr>"
  have a: "argType ?ins = Some ''eth''" by simp
  have b: "BigNumber_from (JStr ''0x1bc16d674ec80000'') = Inr 2000000000000000000"
    by (simp add: BigNumber_from_def fromString_2eth)
  from eth_coercion[OF a, of exampleAmbient] b
  have "coerce exampleAmbient ?ins (JStr ''0x1bc16d674ec80000'') = Inr (JStr (formatEther 2000000000000000000))
      \<and> weiOf (formatEther 2000000000000000000) = 2000000000000000000
      \<and> coerce exampleAmbient ?ins (BigNumber 1500000000000000000) = Inr (JStr ''1.5'')"
    by blast
  then show ?thesis using b by (simp add: formatEther_2eth)
qed


end
